theory Spec2Isabelle
  imports Main "HOL-Library.Word" "HOL-Library.Sublist"
begin

unbundle bit_operations_syntax

section \<open>The process and its environment\<close>

text \<open>
  The four programs \<^verbatim>\<open>send-keys.c\<close>, \<^verbatim>\<open>send-keys-raw.c\<close>,
  \<^verbatim>\<open>send-keys-no-enter.c\<close> and \<^verbatim>\<open>send-keys-pty.c\<close> are single \<^verbatim>\<open>main\<close>
  functions that talk to the kernel through \<^verbatim>\<open>open\<close>, \<^verbatim>\<open>tcgetattr\<close>,
  \<^verbatim>\<open>ioctl(fd, TIOCSTI, &c)\<close>, \<^verbatim>\<open>usleep\<close> and \<^verbatim>\<open>close\<close>, and write
  diagnostics to \<^verbatim>\<open>stderr\<close>. Every such call is an event; a run of \<^verbatim>\<open>main\<close> yields
  its exit status and the sequence of events in program order.

  A diagnostic is recorded by its label (the first argument of \<^verbatim>\<open>perror\<close>, or the text
  before the colon of the \<^verbatim>\<open>fprintf\<close> format); the decoded \<^verbatim>\<open>errno\<close> text and the
  program name in the usage line are not part of the model.
\<close>

datatype event =
    Usage
  | Open string int
  | Perror string
  | Fprintf string
  | Tcgetattr int int
  | Tiocsti int char int
  | Usleep nat
  | Close int

text \<open>
  The environment fixes what the kernel answers: the value of \<^verbatim>\<open>open\<close> for a path, the
  value of \<^verbatim>\<open>tcgetattr\<close> and the \<^verbatim>\<open>c_lflag\<close> it stores when it succeeds, and the
  value of the \<open>n\<close>-th \<^verbatim>\<open>TIOCSTI\<close> call of the run (counted from 0). It also fixes
  \<open>stack_lflag\<close>, the indeterminate content of the automatic variable
  \<^verbatim>\<open>tios.c_lflag\<close> of \<^verbatim>\<open>send-keys-pty.c\<close> before \<^verbatim>\<open>tcgetattr\<close> is called: the
  source declares \<^verbatim>\<open>struct termios tios;\<close> without an initialiser.
\<close>

record env =
  open_ret :: "string \<Rightarrow> int"
  tcgetattr_ret :: int
  term_lflag :: "32 word"
  stack_lflag :: "32 word"
  tiocsti_ret :: "nat \<Rightarrow> int"

record world =
  trace :: "event list"
  ninj :: nat

definition w0 :: world where
  "w0 = \<lparr>trace = [], ninj = 0\<rparr>"

definition emit :: "event \<Rightarrow> world \<Rightarrow> world" where
  "emit e w = w\<lparr>trace := trace w @ [e]\<rparr>"

definition usage :: "world \<Rightarrow> world" where
  "usage w = emit Usage w"

definition perror :: "string \<Rightarrow> world \<Rightarrow> world" where
  "perror s w = emit (Perror s) w"

definition fprintf_stderr :: "string \<Rightarrow> world \<Rightarrow> world" where
  "fprintf_stderr s w = emit (Fprintf s) w"

definition usleep :: "nat \<Rightarrow> world \<Rightarrow> world" where
  "usleep n w = emit (Usleep n) w"

definition close_fd :: "int \<Rightarrow> world \<Rightarrow> world" where
  "close_fd fd w = emit (Close fd) w"

definition open_rdwr :: "env \<Rightarrow> string \<Rightarrow> world \<Rightarrow> int \<times> world" where
  "open_rdwr k path w = (let fd = open_ret k path in (fd, emit (Open path fd) w))"

definition ioctl_TIOCSTI :: "env \<Rightarrow> int \<Rightarrow> char \<Rightarrow> world \<Rightarrow> int \<times> world" where
  "ioctl_TIOCSTI k fd c w =
     (let r = tiocsti_ret k (ninj w)
      in (r, \<lparr>trace = trace w @ [Tiocsti fd c r], ninj = Suc (ninj w)\<rparr>))"

text \<open>
  \<^verbatim>\<open>tcgetattr(fd, &tios)\<close> returns the environment's value and, when that is not
  negative, stores the terminal's local-mode flags; on failure the structure keeps what
  it held before the call. The second argument is the content of \<^verbatim>\<open>c_lflag\<close> before
  the call, the second component of the result its content after.
\<close>

definition tcgetattr :: "env \<Rightarrow> int \<Rightarrow> 32 word \<Rightarrow> world \<Rightarrow> (int \<times> 32 word) \<times> world" where
  "tcgetattr k fd lflag w =
     (let r = tcgetattr_ret k
      in ((r, if r < 0 then lflag else term_lflag k), emit (Tcgetattr fd r) w))"

text \<open>\<^verbatim>\<open>'\r'\<close> (also written \<^verbatim>\<open>13\<close> in send-keys-raw.c) and \<^verbatim>\<open>'\n'\<close>.\<close>

definition CR :: char where
  "CR = CHR 0x0D"

definition LF :: char where
  "LF = CHR 0x0A"

text \<open>
  \<^verbatim>\<open>ICANON\<close> comes from the system header \<^verbatim>\<open><termios.h>\<close>; on Linux it is the bit
  \<^verbatim>\<open>0000002\<close> of the 32-bit \<^verbatim>\<open>tcflag_t\<close>.
\<close>

definition ICANON :: "32 word" where
  "ICANON = 2"

section \<open>The payload loops\<close>

text \<open>
  \<^verbatim>\<open>for (int i = 0; i < strlen(text); i++) { if (ioctl(fd, TIOCSTI, &text[i]) < 0)
  { perror("Failed to send character"); close(fd); return 1; } }\<close>
  is the loop of send-keys.c, send-keys-raw.c and send-keys-no-enter.c. An element of
  \<open>argv\<close> is the content of a C string (the bytes before the terminating NUL), so
  \<^verbatim>\<open>strlen\<close> is \<open>length\<close>; the kernel bounds the length of an argument far below
  \<^verbatim>\<open>INT_MAX\<close>, so the \<^verbatim>\<open>int\<close> index does not overflow. The result is
  \<open>Some st\<close> when the loop body executed \<^verbatim>\<open>return st\<close>, and \<open>None\<close> when the loop
  ran to its end.
\<close>

function send_text :: "env \<Rightarrow> int \<Rightarrow> string \<Rightarrow> nat \<Rightarrow> world \<Rightarrow> int option \<times> world" where
  "send_text k fd text i w =
     (if i < length text then
        (case ioctl_TIOCSTI k fd (text ! i) w of
           (r, w1) \<Rightarrow>
             if r < 0 then (Some 1, close_fd fd (perror ''Failed to send character'' w1))
             else send_text k fd text (Suc i) w1)
      else (None, w))"
  by pat_completeness auto
termination
  by (relation "measure (\<lambda>(k, fd, text, i, w). length text - i)") auto

declare send_text.simps [simp del]

text \<open>The loop of send-keys-pty.c sleeps one millisecond after every accepted byte.\<close>

function send_text_pty :: "env \<Rightarrow> int \<Rightarrow> string \<Rightarrow> nat \<Rightarrow> world \<Rightarrow> int option \<times> world" where
  "send_text_pty k fd text i w =
     (if i < length text then
        (case ioctl_TIOCSTI k fd (text ! i) w of
           (r, w1) \<Rightarrow>
             if r < 0 then (Some 1, close_fd fd (perror ''Failed to send character'' w1))
             else send_text_pty k fd text (Suc i) (usleep 1000 w1))
      else (None, w))"
  by pat_completeness auto
termination
  by (relation "measure (\<lambda>(k, fd, text, i, w). length text - i)") auto

declare send_text_pty.simps [simp del]

section \<open>The four programs\<close>

text \<open>send-keys.c: payload, then CR and LF, each framing failure only reported.\<close>

definition send_keys_main :: "env \<Rightarrow> string list \<Rightarrow> int \<times> world" where
  "send_keys_main k argv =
     (if length argv \<noteq> 3 then (1, usage w0)
      else
        (case open_rdwr k (argv ! 1) w0 of
           (fd, w1) \<Rightarrow>
             if fd < 0 then (1, perror ''Failed to open terminal'' w1)
             else
               (case send_text k fd (argv ! 2) 0 w1 of
                  (Some st, w2) \<Rightarrow> (st, w2)
                | (None, w2) \<Rightarrow>
                    (case ioctl_TIOCSTI k fd CR w2 of
                       (r1, w3) \<Rightarrow>
                         let w4 = (if r1 < 0 then perror ''Failed to send CR'' w3 else w3)
                         in (case ioctl_TIOCSTI k fd LF w4 of
                               (r2, w5) \<Rightarrow>
                                 let w6 = (if r2 < 0 then perror ''Failed to send LF'' w5 else w5)
                                 in (0, close_fd fd w6))))))"

text \<open>
  send-keys-raw.c: \<^verbatim>\<open>tcgetattr(fd, &old_tio)\<close> is called and neither its value nor
  \<^verbatim>\<open>old_tio\<close> is read afterwards; a failing CR is fatal.
\<close>

definition send_keys_raw_main :: "env \<Rightarrow> string list \<Rightarrow> int \<times> world" where
  "send_keys_raw_main k argv =
     (if length argv \<noteq> 3 then (1, usage w0)
      else
        (case open_rdwr k (argv ! 1) w0 of
           (fd, w1) \<Rightarrow>
             if fd < 0 then (1, perror ''Failed to open terminal'' w1)
             else
               (case tcgetattr k fd (stack_lflag k) w1 of
                  (_, w2) \<Rightarrow>
                    (case send_text k fd (argv ! 2) 0 w2 of
                       (Some st, w3) \<Rightarrow> (st, w3)
                     | (None, w3) \<Rightarrow>
                         (case ioctl_TIOCSTI k fd CR w3 of
                            (r, w4) \<Rightarrow>
                              if r < 0
                              then (1, close_fd fd (perror ''Failed to send Enter key'' w4))
                              else (0, close_fd fd w4))))))"

text \<open>
  send-keys-no-enter.c: three or four arguments; CR and LF are sent only when
  \<^verbatim>\<open>argc == 4 && strcmp(argv[3], "enter") == 0\<close>.
\<close>

definition send_keys_no_enter_main :: "env \<Rightarrow> string list \<Rightarrow> int \<times> world" where
  "send_keys_no_enter_main k argv =
     (if length argv < 3 \<or> length argv > 4 then (1, usage w0)
      else
        (case open_rdwr k (argv ! 1) w0 of
           (fd, w1) \<Rightarrow>
             if fd < 0 then (1, perror ''Failed to open terminal'' w1)
             else
               (case send_text k fd (argv ! 2) 0 w1 of
                  (Some st, w2) \<Rightarrow> (st, w2)
                | (None, w2) \<Rightarrow>
                    if length argv = 4 \<and> argv ! 3 = ''enter'' then
                      (case ioctl_TIOCSTI k fd CR w2 of
                         (r1, w3) \<Rightarrow>
                           let w4 = (if r1 < 0 then perror ''Failed to send CR'' w3 else w3)
                           in (case ioctl_TIOCSTI k fd LF w4 of
                                 (r2, w5) \<Rightarrow>
                                   let w6 = (if r2 < 0 then perror ''Failed to send LF'' w5 else w5)
                                   in (0, close_fd fd w6)))
                    else (0, close_fd fd w2))))"

text \<open>
  send-keys-pty.c: the attribute query is only reported when it fails; after the payload
  a CR, a ten millisecond pause, and an LF when \<^verbatim>\<open>tios.c_lflag & ICANON\<close> is not zero.
\<close>

definition send_keys_pty_main :: "env \<Rightarrow> string list \<Rightarrow> int \<times> world" where
  "send_keys_pty_main k argv =
     (if length argv \<noteq> 3 then (1, usage w0)
      else
        (case open_rdwr k (argv ! 1) w0 of
           (fd, w1) \<Rightarrow>
             if fd < 0 then (1, perror ''Failed to open terminal'' w1)
             else
               (case tcgetattr k fd (stack_lflag k) w1 of
                  ((rt, c_lflag), w2) \<Rightarrow>
                    let w3 = (if rt < 0 then perror ''tcgetattr failed'' w2 else w2)
                    in (case send_text_pty k fd (argv ! 2) 0 w3 of
                          (Some st, w4) \<Rightarrow> (st, w4)
                        | (None, w4) \<Rightarrow>
                            (case ioctl_TIOCSTI k fd CR w4 of
                               (r1, w5) \<Rightarrow>
                                 let w6 = (if r1 < 0 then fprintf_stderr ''Failed to send CR'' w5 else w5);
                                     w7 = usleep 10000 w6
                                 in if c_lflag AND ICANON \<noteq> 0 then
                                      (case ioctl_TIOCSTI k fd LF w7 of
                                         (r2, w8) \<Rightarrow>
                                           let w9 = (if r2 < 0 then fprintf_stderr ''Failed to send LF'' w8 else w8)
                                           in (0, close_fd fd w9))
                                    else (0, close_fd fd w7))))))"

section \<open>Observations on a run\<close>

text \<open>The exit status and the event sequence of a run.\<close>

abbreviation status :: "int \<times> world \<Rightarrow> int" where
  "status r \<equiv> fst r"

abbreviation events :: "int \<times> world \<Rightarrow> event list" where
  "events r \<equiv> trace (snd r)"

text \<open>
  \<open>injected\<close> lists the bytes handed to \<^verbatim>\<open>TIOCSTI\<close>, one per call and in call order;
  \<open>accepted\<close> keeps those whose call did not return a negative value.
\<close>

fun injected :: "event list \<Rightarrow> char list" where
  "injected [] = []"
| "injected (Tiocsti fd c r # es) = c # injected es"
| "injected (e # es) = injected es"

fun accepted :: "event list \<Rightarrow> char list" where
  "accepted [] = []"
| "accepted (Tiocsti fd c r # es) = (if r < 0 then accepted es else c # accepted es)"
| "accepted (e # es) = accepted es"

text \<open>
  Every payload byte was accepted: the accepted bytes begin with the whole payload. (A
  rejected payload byte ends the run, so the accepted bytes are then a proper prefix of
  the payload.)
\<close>

definition payload_accepted :: "string \<Rightarrow> event list \<Rightarrow> bool" where
  "payload_accepted s tr \<longleftrightarrow> take (length s) (accepted tr) = s"

text \<open>
  The payload comes first: the first \<open>length s\<close> injection calls carry the bytes of
  \<open>s\<close> in order, each was accepted, and what is injected after them is one of the three
  framings.
\<close>

definition payload_first :: "string \<Rightarrow> event list \<Rightarrow> bool" where
  "payload_first s tr \<longleftrightarrow>
     take (length s) (injected tr) = s \<and>
     take (length s) (accepted tr) = s \<and>
     (drop (length s) (injected tr) = [] \<or>
      drop (length s) (injected tr) = [CR] \<or>
      drop (length s) (injected tr) = [CR, LF])"

text \<open>The handle \<open>fd\<close> is closed exactly once, and closing it is the last event.\<close>

definition closed_once :: "int \<Rightarrow> event list \<Rightarrow> bool" where
  "closed_once fd tr \<longleftrightarrow> last tr = Close fd \<and> count_list tr (Close fd) = 1"

text \<open>
  The events of the loop for the indices \<open>i \<le> j < n\<close> when each of these calls is
  accepted; \<open>d\<close> is what the loop body does after an accepted call (nothing, or the
  one millisecond pause of send-keys-pty.c).
\<close>

definition byte_events :: "event list \<Rightarrow> env \<Rightarrow> int \<Rightarrow> string \<Rightarrow> nat \<Rightarrow> nat \<Rightarrow> event list" where
  "byte_events d k fd s i n = concat (map (\<lambda>j. Tiocsti fd (s ! j) (tiocsti_ret k j) # d) [i..<n])"

text \<open>The last three events of a run whose \<open>m\<close>-th payload byte is rejected.\<close>

definition abort_events :: "env \<Rightarrow> int \<Rightarrow> string \<Rightarrow> nat \<Rightarrow> event list" where
  "abort_events k fd s m =
     [Tiocsti fd (s ! m) (tiocsti_ret k m), Perror ''Failed to send character'', Close fd]"

text \<open>A diagnostic that is written only when the call before it returned a negative value.\<close>

definition report :: "event \<Rightarrow> int \<Rightarrow> event list" where
  "report e r = (if r < 0 then [e] else [])"

text \<open>The CR and LF calls of send-keys.c and send-keys-no-enter.c, as calls \<open>n\<close> and \<open>n + 1\<close>.\<close>

definition crlf_events :: "env \<Rightarrow> int \<Rightarrow> nat \<Rightarrow> event list" where
  "crlf_events k fd n =
     Tiocsti fd CR (tiocsti_ret k n) # report (Perror ''Failed to send CR'') (tiocsti_ret k n)
     @ Tiocsti fd LF (tiocsti_ret k (Suc n)) # report (Perror ''Failed to send LF'') (tiocsti_ret k (Suc n))"

text \<open>
  What \<^verbatim>\<open>tios.c_lflag\<close> holds in send-keys-pty.c when it is tested after the payload:
  the terminal's flags when the query succeeded, the indeterminate initial content
  otherwise.
\<close>

definition tios_lflag :: "env \<Rightarrow> 32 word" where
  "tios_lflag k = (if tcgetattr_ret k < 0 then stack_lflag k else term_lflag k)"

text \<open>The events of send-keys-pty.c before its loop and after it.\<close>

definition pty_prologue :: "env \<Rightarrow> string \<Rightarrow> event list" where
  "pty_prologue k path =
     [Open path (open_ret k path), Tcgetattr (open_ret k path) (tcgetattr_ret k)]
     @ report (Perror ''tcgetattr failed'') (tcgetattr_ret k)"

definition pty_eol_events :: "env \<Rightarrow> int \<Rightarrow> nat \<Rightarrow> event list" where
  "pty_eol_events k fd n =
     Tiocsti fd CR (tiocsti_ret k n) # report (Fprintf ''Failed to send CR'') (tiocsti_ret k n)
     @ Usleep 10000
     # (if tios_lflag k AND ICANON \<noteq> 0
        then Tiocsti fd LF (tiocsti_ret k (Suc n)) # report (Fprintf ''Failed to send LF'') (tiocsti_ret k (Suc n))
        else [])"

text \<open>
  A run that stopped at the rejected payload byte \<open>m\<close>: status 1; the calls made are
  those for the bytes \<open>0..m\<close> and no other; the bytes before \<open>m\<close> stay accepted; the
  run ends with the failed call, the diagnostic \<^verbatim>\<open>Failed to send character\<close> and the
  close of the handle.
\<close>

definition aborted_at :: "env \<Rightarrow> int \<Rightarrow> string \<Rightarrow> nat \<Rightarrow> int \<times> world \<Rightarrow> bool" where
  "aborted_at k fd s m r \<longleftrightarrow>
     status r = 1 \<and>
     injected (events r) = take (Suc m) s \<and>
     accepted (events r) = take m s \<and>
     drop (length (events r) - 3) (events r) = abort_events k fd s m \<and>
     closed_once fd (events r)"

text \<open>
  The pacing rule "a one millisecond pause occurs only between two successive payload
  injections", read on an event sequence: \<open>n\<close> is the length of the payload and \<open>c\<close>
  the number of injection calls seen so far, so a pause of 1000 microseconds is allowed
  only when at least one and fewer than \<open>n\<close> calls precede it.
\<close>

fun delay_only_between :: "nat \<Rightarrow> nat \<Rightarrow> event list \<Rightarrow> bool" where
  "delay_only_between n c [] = True"
| "delay_only_between n c (Tiocsti fd b r # es) = delay_only_between n (Suc c) es"
| "delay_only_between n c (Usleep d # es) =
     ((d \<noteq> 1000 \<or> (0 < c \<and> c < n)) \<and> delay_only_between n c es)"
| "delay_only_between n c (e # es) = delay_only_between n c es"

subsection \<open>Example environments\<close>

text \<open>
  A kernel that opens every path as descriptor 3, reports a canonical-mode terminal and
  accepts every byte; the same kernel rejecting the injection call number \<open>n\<close>; and the
  same kernel with a failing attribute query, \<open>g\<close> being what \<^verbatim>\<open>tios.c_lflag\<close>
  happens to hold.
\<close>

definition kernel_ok :: env where
  "kernel_ok = \<lparr>open_ret = (\<lambda>p. 3), tcgetattr_ret = 0, term_lflag = ICANON, stack_lflag = 0,
                 tiocsti_ret = (\<lambda>n. 0)\<rparr>"

definition kernel_reject_at :: "nat \<Rightarrow> env" where
  "kernel_reject_at n = kernel_ok\<lparr>tiocsti_ret := (\<lambda>j. if j = n then - 1 else 0)\<rparr>"

definition kernel_attr_fail :: "32 word \<Rightarrow> env" where
  "kernel_attr_fail g = kernel_ok\<lparr>tcgetattr_ret := - 1, stack_lflag := g\<rparr>"

section \<open>The loops in closed form\<close>

text \<open>
  A loop started at index \<open>i\<close> with \<open>i\<close> calls already made either runs to the end
  of the payload, every call being accepted, or stops at the first rejected call
  \<open>m\<close>. Both outcomes are computed by induction along the recursion of the loop.
\<close>

lemma injected_append: "injected (xs @ ys) = injected xs @ injected ys"
  by (induction xs rule: injected.induct) simp_all

lemma accepted_append: "accepted (xs @ ys) = accepted xs @ accepted ys"
  by (induction xs rule: accepted.induct) simp_all

lemma byte_events_Cons:
  "i < n \<Longrightarrow> byte_events d k fd s i n = Tiocsti fd (s ! i) (tiocsti_ret k i) # d @ byte_events d k fd s (Suc i) n"
  by (simp add: byte_events_def upt_conv_Cons)

lemma byte_events_empty: "byte_events d k fd s n n = []"
  by (simp add: byte_events_def)

lemma byte_events_snoc:
  "byte_events d k fd s 0 (Suc n) = byte_events d k fd s 0 n @ Tiocsti fd (s ! n) (tiocsti_ret k n) # d"
  by (simp add: byte_events_def)

lemma ioctl_step:
  "ninj w = i \<Longrightarrow> ioctl_TIOCSTI k fd c w =
     (tiocsti_ret k i, \<lparr>trace = trace w @ [Tiocsti fd c (tiocsti_ret k i)], ninj = Suc i\<rparr>)"
  by (simp add: ioctl_TIOCSTI_def Let_def)

lemma send_text_all_ok:
  "ninj w = i \<Longrightarrow> i \<le> length s \<Longrightarrow>
   (\<forall>j. i \<le> j \<and> j < length s \<longrightarrow> \<not> tiocsti_ret k j < 0) \<Longrightarrow>
   send_text k fd s i w =
     (None, \<lparr>trace = trace w @ byte_events [] k fd s i (length s), ninj = length s\<rparr>)"
proof (induction k fd s i w rule: send_text.induct)
  case (1 k fd s i w)
  note unf = send_text.simps [of k fd s i w]
  show ?case
  proof (cases "i < length s")
    case True
    let ?w1 = "\<lparr>trace = trace w @ [Tiocsti fd (s ! i) (tiocsti_ret k i)], ninj = Suc i\<rparr>"
    have ok: "\<not> tiocsti_ret k i < 0" using True "1.prems" by simp
    have step: "ioctl_TIOCSTI k fd (s ! i) w = (tiocsti_ret k i, ?w1)"
      using "1.prems" by (simp add: ioctl_step)
    have "send_text k fd s (Suc i) ?w1 =
      (None, \<lparr>trace = trace ?w1 @ byte_events [] k fd s (Suc i) (length s), ninj = length s\<rparr>)"
      using "1.IH" [OF True step [symmetric] ok] True "1.prems" by simp
    moreover have "send_text k fd s i w = send_text k fd s (Suc i) ?w1"
      using True ok step unf by simp
    ultimately show ?thesis
      using True by (simp add: byte_events_Cons)
  next
    case False
    then have "i = length s" using "1.prems" by simp
    moreover have "send_text k fd s i w = (None, w)"
      using False unf by simp
    ultimately show ?thesis
      using "1.prems" by (simp add: byte_events_empty)
  qed
qed

lemma send_text_fail:
  "ninj w = i \<Longrightarrow> i \<le> m \<Longrightarrow> m < length s \<Longrightarrow> tiocsti_ret k m < 0 \<Longrightarrow>
   (\<forall>j. i \<le> j \<and> j < m \<longrightarrow> \<not> tiocsti_ret k j < 0) \<Longrightarrow>
   send_text k fd s i w =
     (Some 1, \<lparr>trace = trace w @ byte_events [] k fd s i m
                  @ [Tiocsti fd (s ! m) (tiocsti_ret k m),
                     Perror ''Failed to send character'', Close fd], ninj = Suc m\<rparr>)"
proof (induction k fd s i w rule: send_text.induct)
  case (1 k fd s i w)
  note unf = send_text.simps [of k fd s i w]
  have lt: "i < length s" using "1.prems" by simp
  let ?w1 = "\<lparr>trace = trace w @ [Tiocsti fd (s ! i) (tiocsti_ret k i)], ninj = Suc i\<rparr>"
  have step: "ioctl_TIOCSTI k fd (s ! i) w = (tiocsti_ret k i, ?w1)"
    using "1.prems" by (simp add: ioctl_step)
  show ?case
  proof (cases "i = m")
    case True
    have "send_text k fd s i w =
      (Some 1, close_fd fd (perror ''Failed to send character'' ?w1))"
      using lt step unf True "1.prems" by simp
    then show ?thesis
      using True by (simp add: byte_events_empty close_fd_def perror_def emit_def)
  next
    case False
    then have im: "Suc i \<le> m" and ok: "\<not> tiocsti_ret k i < 0" using "1.prems" by auto
    have "send_text k fd s (Suc i) ?w1 =
      (Some 1, \<lparr>trace = trace ?w1 @ byte_events [] k fd s (Suc i) m
                  @ [Tiocsti fd (s ! m) (tiocsti_ret k m),
                     Perror ''Failed to send character'', Close fd], ninj = Suc m\<rparr>)"
      using "1.IH" [OF lt step [symmetric] ok] im "1.prems" by simp
    moreover have "send_text k fd s i w = send_text k fd s (Suc i) ?w1"
      using lt ok step unf by simp
    ultimately show ?thesis
      using im by (simp add: byte_events_Cons)
  qed
qed

lemma send_text_pty_all_ok:
  "ninj w = i \<Longrightarrow> i \<le> length s \<Longrightarrow>
   (\<forall>j. i \<le> j \<and> j < length s \<longrightarrow> \<not> tiocsti_ret k j < 0) \<Longrightarrow>
   send_text_pty k fd s i w =
     (None, \<lparr>trace = trace w @ byte_events [Usleep 1000] k fd s i (length s), ninj = length s\<rparr>)"
proof (induction k fd s i w rule: send_text_pty.induct)
  case (1 k fd s i w)
  note unf = send_text_pty.simps [of k fd s i w]
  show ?case
  proof (cases "i < length s")
    case True
    let ?w1 = "\<lparr>trace = trace w @ [Tiocsti fd (s ! i) (tiocsti_ret k i)], ninj = Suc i\<rparr>"
    let ?w2 = "\<lparr>trace = trace w @ [Tiocsti fd (s ! i) (tiocsti_ret k i), Usleep 1000], ninj = Suc i\<rparr>"
    have ok: "\<not> tiocsti_ret k i < 0" using True "1.prems" by simp
    have step: "ioctl_TIOCSTI k fd (s ! i) w = (tiocsti_ret k i, ?w1)"
      using "1.prems" by (simp add: ioctl_step)
    have sl: "usleep 1000 ?w1 = ?w2" by (simp add: usleep_def emit_def)
    have "send_text_pty k fd s (Suc i) (usleep 1000 ?w1) =
      (None, \<lparr>trace = trace (usleep 1000 ?w1) @ byte_events [Usleep 1000] k fd s (Suc i) (length s),
              ninj = length s\<rparr>)"
      using "1.IH" [OF True step [symmetric] ok] True "1.prems" by (simp add: sl)
    moreover have "send_text_pty k fd s i w = send_text_pty k fd s (Suc i) (usleep 1000 ?w1)"
      using True ok step unf by simp
    ultimately show ?thesis
      using True by (simp add: byte_events_Cons sl)
  next
    case False
    then have "i = length s" using "1.prems" by simp
    moreover have "send_text_pty k fd s i w = (None, w)"
      using False unf by simp
    ultimately show ?thesis
      using "1.prems" by (simp add: byte_events_empty)
  qed
qed

lemma send_text_pty_fail:
  "ninj w = i \<Longrightarrow> i \<le> m \<Longrightarrow> m < length s \<Longrightarrow> tiocsti_ret k m < 0 \<Longrightarrow>
   (\<forall>j. i \<le> j \<and> j < m \<longrightarrow> \<not> tiocsti_ret k j < 0) \<Longrightarrow>
   send_text_pty k fd s i w =
     (Some 1, \<lparr>trace = trace w @ byte_events [Usleep 1000] k fd s i m
                  @ [Tiocsti fd (s ! m) (tiocsti_ret k m),
                     Perror ''Failed to send character'', Close fd], ninj = Suc m\<rparr>)"
proof (induction k fd s i w rule: send_text_pty.induct)
  case (1 k fd s i w)
  note unf = send_text_pty.simps [of k fd s i w]
  have lt: "i < length s" using "1.prems" by simp
  let ?w1 = "\<lparr>trace = trace w @ [Tiocsti fd (s ! i) (tiocsti_ret k i)], ninj = Suc i\<rparr>"
  let ?w2 = "\<lparr>trace = trace w @ [Tiocsti fd (s ! i) (tiocsti_ret k i), Usleep 1000], ninj = Suc i\<rparr>"
  have step: "ioctl_TIOCSTI k fd (s ! i) w = (tiocsti_ret k i, ?w1)"
    using "1.prems" by (simp add: ioctl_step)
  have sl: "usleep 1000 ?w1 = ?w2" by (simp add: usleep_def emit_def)
  show ?case
  proof (cases "i = m")
    case True
    have "send_text_pty k fd s i w =
      (Some 1, close_fd fd (perror ''Failed to send character'' ?w1))"
      using lt step unf True "1.prems" by simp
    then show ?thesis
      using True by (simp add: byte_events_empty close_fd_def perror_def emit_def)
  next
    case False
    then have im: "Suc i \<le> m" and ok: "\<not> tiocsti_ret k i < 0" using "1.prems" by auto
    have "send_text_pty k fd s (Suc i) (usleep 1000 ?w1) =
      (Some 1, \<lparr>trace = trace (usleep 1000 ?w1) @ byte_events [Usleep 1000] k fd s (Suc i) m
                  @ [Tiocsti fd (s ! m) (tiocsti_ret k m),
                     Perror ''Failed to send character'', Close fd], ninj = Suc m\<rparr>)"
      using "1.IH" [OF lt step [symmetric] ok] im "1.prems" by (simp add: sl)
    moreover have "send_text_pty k fd s i w = send_text_pty k fd s (Suc i) (usleep 1000 ?w1)"
      using lt ok step unf by simp
    ultimately show ?thesis
      using im by (simp add: byte_events_Cons sl)
  qed
qed

lemma first_failure:
  fixes f :: "nat \<Rightarrow> int"
  shows "(\<forall>j<n. \<not> f j < 0) \<or> (\<exists>m<n. f m < 0 \<and> (\<forall>j<m. \<not> f j < 0))"
proof (cases "\<forall>j<n. \<not> f j < 0")
  case True
  then show ?thesis by simp
next
  case False
  then obtain j where j: "j < n" "f j < 0" by auto
  define m where "m = (LEAST j. f j < 0)"
  have neg: "f m < 0" unfolding m_def using j(2) by (rule LeastI)
  have "m \<le> j" unfolding m_def using j(2) by (rule Least_le)
  then have lt: "m < n" using j(1) by simp
  have "\<forall>i<m. \<not> f i < 0" unfolding m_def using not_less_Least by blast
  then have "\<exists>m<n. f m < 0 \<and> (\<forall>j<m. \<not> f j < 0)" using neg lt by blast
  then show ?thesis ..
qed

lemma injected_byte_events:
  "injected d = [] \<Longrightarrow> m \<le> length s \<Longrightarrow> injected (byte_events d k fd s 0 m) = take m s"
  by (induction m) (simp_all add: byte_events_empty byte_events_snoc injected_append take_Suc_conv_app_nth)

lemma accepted_byte_events:
  "accepted d = [] \<Longrightarrow> m \<le> length s \<Longrightarrow> (\<forall>j<m. \<not> tiocsti_ret k j < 0) \<Longrightarrow>
   accepted (byte_events d k fd s 0 m) = take m s"
  by (induction m) (simp_all add: byte_events_empty byte_events_snoc accepted_append take_Suc_conv_app_nth)

lemma count_byte_events:
  "count_list d (Close fd') = 0 \<Longrightarrow> count_list (byte_events d k fd s 0 m) (Close fd') = 0"
  by (induction m) (simp_all add: byte_events_empty byte_events_snoc)

section \<open>The runs in closed form\<close>

text \<open>
  Each program has four kinds of run: wrong argument count, failed open, a rejected
  payload byte, and a payload accepted in full. The result of each is given in full.
\<close>

lemmas sys_defs = open_rdwr_def w0_def emit_def Let_def ioctl_TIOCSTI_def perror_def close_fd_def
  usage_def fprintf_stderr_def usleep_def tcgetattr_def report_def

subsection \<open>send-keys.c\<close>

lemma send_keys_usage:
  "length argv \<noteq> 3 \<Longrightarrow> send_keys_main k argv = (1, \<lparr>trace = [Usage], ninj = 0\<rparr>)"
  by (simp add: send_keys_main_def sys_defs)

lemma send_keys_open_fail:
  "length argv = 3 \<Longrightarrow> open_ret k (argv ! 1) < 0 \<Longrightarrow>
   send_keys_main k argv =
     (1, \<lparr>trace = [Open (argv ! 1) (open_ret k (argv ! 1)), Perror ''Failed to open terminal''],
          ninj = 0\<rparr>)"
  by (simp add: send_keys_main_def sys_defs)

lemma send_keys_abort:
  assumes "length argv = 3" "\<not> open_ret k (argv ! 1) < 0" "m < length (argv ! 2)"
    "tiocsti_ret k m < 0" "\<forall>j<m. \<not> tiocsti_ret k j < 0"
  shows "send_keys_main k argv =
     (1, \<lparr>trace = Open (argv ! 1) (open_ret k (argv ! 1))
                   # byte_events [] k (open_ret k (argv ! 1)) (argv ! 2) 0 m
                   @ abort_events k (open_ret k (argv ! 1)) (argv ! 2) m,
          ninj = Suc m\<rparr>)"
proof -
  let ?fd = "open_ret k (argv ! 1)"
  let ?w1 = "\<lparr>trace = [Open (argv ! 1) ?fd], ninj = 0\<rparr>"
  have "send_text k ?fd (argv ! 2) 0 ?w1 =
     (Some 1, \<lparr>trace = trace ?w1 @ byte_events [] k ?fd (argv ! 2) 0 m
                  @ abort_events k ?fd (argv ! 2) m, ninj = Suc m\<rparr>)"
    unfolding abort_events_def using assms by (intro send_text_fail) simp_all
  then show ?thesis
    using assms by (simp add: send_keys_main_def sys_defs)
qed

lemma send_keys_ok:
  assumes "length argv = 3" "\<not> open_ret k (argv ! 1) < 0"
    "\<forall>j<length (argv ! 2). \<not> tiocsti_ret k j < 0"
  shows "send_keys_main k argv =
     (0, \<lparr>trace = Open (argv ! 1) (open_ret k (argv ! 1))
                   # byte_events [] k (open_ret k (argv ! 1)) (argv ! 2) 0 (length (argv ! 2))
                   @ crlf_events k (open_ret k (argv ! 1)) (length (argv ! 2))
                   @ [Close (open_ret k (argv ! 1))],
          ninj = Suc (Suc (length (argv ! 2)))\<rparr>)"
proof -
  let ?fd = "open_ret k (argv ! 1)"
  let ?w1 = "\<lparr>trace = [Open (argv ! 1) ?fd], ninj = 0\<rparr>"
  have "send_text k ?fd (argv ! 2) 0 ?w1 =
     (None, \<lparr>trace = trace ?w1 @ byte_events [] k ?fd (argv ! 2) 0 (length (argv ! 2)),
             ninj = length (argv ! 2)\<rparr>)"
    using assms by (intro send_text_all_ok) simp_all
  then show ?thesis
    using assms by (simp add: send_keys_main_def sys_defs crlf_events_def)
qed

subsection \<open>send-keys-raw.c\<close>

lemma raw_usage:
  "length argv \<noteq> 3 \<Longrightarrow> send_keys_raw_main k argv = (1, \<lparr>trace = [Usage], ninj = 0\<rparr>)"
  by (simp add: send_keys_raw_main_def sys_defs)

lemma raw_open_fail:
  "length argv = 3 \<Longrightarrow> open_ret k (argv ! 1) < 0 \<Longrightarrow>
   send_keys_raw_main k argv =
     (1, \<lparr>trace = [Open (argv ! 1) (open_ret k (argv ! 1)), Perror ''Failed to open terminal''],
          ninj = 0\<rparr>)"
  by (simp add: send_keys_raw_main_def sys_defs)

lemma raw_abort:
  assumes "length argv = 3" "\<not> open_ret k (argv ! 1) < 0" "m < length (argv ! 2)"
    "tiocsti_ret k m < 0" "\<forall>j<m. \<not> tiocsti_ret k j < 0"
  shows "send_keys_raw_main k argv =
     (1, \<lparr>trace = [Open (argv ! 1) (open_ret k (argv ! 1)),
                    Tcgetattr (open_ret k (argv ! 1)) (tcgetattr_ret k)]
                   @ byte_events [] k (open_ret k (argv ! 1)) (argv ! 2) 0 m
                   @ abort_events k (open_ret k (argv ! 1)) (argv ! 2) m,
          ninj = Suc m\<rparr>)"
proof -
  let ?fd = "open_ret k (argv ! 1)"
  let ?w2 = "\<lparr>trace = [Open (argv ! 1) ?fd, Tcgetattr ?fd (tcgetattr_ret k)], ninj = 0\<rparr>"
  have "send_text k ?fd (argv ! 2) 0 ?w2 =
     (Some 1, \<lparr>trace = trace ?w2 @ byte_events [] k ?fd (argv ! 2) 0 m
                  @ abort_events k ?fd (argv ! 2) m, ninj = Suc m\<rparr>)"
    unfolding abort_events_def using assms by (intro send_text_fail) simp_all
  then show ?thesis
    using assms by (simp add: send_keys_raw_main_def sys_defs)
qed

lemma raw_ok:
  assumes "length argv = 3" "\<not> open_ret k (argv ! 1) < 0"
    "\<forall>j<length (argv ! 2). \<not> tiocsti_ret k j < 0"
  shows "send_keys_raw_main k argv =
     (if tiocsti_ret k (length (argv ! 2)) < 0 then 1 else 0,
      \<lparr>trace = [Open (argv ! 1) (open_ret k (argv ! 1)),
                 Tcgetattr (open_ret k (argv ! 1)) (tcgetattr_ret k)]
                @ byte_events [] k (open_ret k (argv ! 1)) (argv ! 2) 0 (length (argv ! 2))
                @ Tiocsti (open_ret k (argv ! 1)) CR (tiocsti_ret k (length (argv ! 2)))
                # report (Perror ''Failed to send Enter key'') (tiocsti_ret k (length (argv ! 2)))
                @ [Close (open_ret k (argv ! 1))],
       ninj = Suc (length (argv ! 2))\<rparr>)"
proof -
  let ?fd = "open_ret k (argv ! 1)"
  let ?w2 = "\<lparr>trace = [Open (argv ! 1) ?fd, Tcgetattr ?fd (tcgetattr_ret k)], ninj = 0\<rparr>"
  have "send_text k ?fd (argv ! 2) 0 ?w2 =
     (None, \<lparr>trace = trace ?w2 @ byte_events [] k ?fd (argv ! 2) 0 (length (argv ! 2)),
             ninj = length (argv ! 2)\<rparr>)"
    using assms by (intro send_text_all_ok) simp_all
  then show ?thesis
    using assms by (simp add: send_keys_raw_main_def sys_defs)
qed

subsection \<open>send-keys-no-enter.c\<close>

lemma no_enter_usage:
  "length argv < 3 \<or> length argv > 4 \<Longrightarrow>
   send_keys_no_enter_main k argv = (1, \<lparr>trace = [Usage], ninj = 0\<rparr>)"
  by (simp add: send_keys_no_enter_main_def sys_defs)

lemma no_enter_open_fail:
  "length argv = 3 \<or> length argv = 4 \<Longrightarrow> open_ret k (argv ! 1) < 0 \<Longrightarrow>
   send_keys_no_enter_main k argv =
     (1, \<lparr>trace = [Open (argv ! 1) (open_ret k (argv ! 1)), Perror ''Failed to open terminal''],
          ninj = 0\<rparr>)"
  by (auto simp add: send_keys_no_enter_main_def sys_defs)

lemma no_enter_abort:
  assumes "length argv = 3 \<or> length argv = 4" "\<not> open_ret k (argv ! 1) < 0"
    "m < length (argv ! 2)" "tiocsti_ret k m < 0" "\<forall>j<m. \<not> tiocsti_ret k j < 0"
  shows "send_keys_no_enter_main k argv =
     (1, \<lparr>trace = Open (argv ! 1) (open_ret k (argv ! 1))
                   # byte_events [] k (open_ret k (argv ! 1)) (argv ! 2) 0 m
                   @ abort_events k (open_ret k (argv ! 1)) (argv ! 2) m,
          ninj = Suc m\<rparr>)"
proof -
  let ?fd = "open_ret k (argv ! 1)"
  let ?w1 = "\<lparr>trace = [Open (argv ! 1) ?fd], ninj = 0\<rparr>"
  have "send_text k ?fd (argv ! 2) 0 ?w1 =
     (Some 1, \<lparr>trace = trace ?w1 @ byte_events [] k ?fd (argv ! 2) 0 m
                  @ abort_events k ?fd (argv ! 2) m, ninj = Suc m\<rparr>)"
    unfolding abort_events_def using assms by (intro send_text_fail) simp_all
  then show ?thesis
    using assms by (auto simp add: send_keys_no_enter_main_def sys_defs)
qed

lemma no_enter_ok:
  assumes "length argv = 3 \<or> length argv = 4" "\<not> open_ret k (argv ! 1) < 0"
    "\<forall>j<length (argv ! 2). \<not> tiocsti_ret k j < 0"
  shows "send_keys_no_enter_main k argv =
     (0, \<lparr>trace = Open (argv ! 1) (open_ret k (argv ! 1))
                   # byte_events [] k (open_ret k (argv ! 1)) (argv ! 2) 0 (length (argv ! 2))
                   @ (if length argv = 4 \<and> argv ! 3 = ''enter''
                      then crlf_events k (open_ret k (argv ! 1)) (length (argv ! 2)) else [])
                   @ [Close (open_ret k (argv ! 1))],
          ninj = (if length argv = 4 \<and> argv ! 3 = ''enter''
                  then Suc (Suc (length (argv ! 2))) else length (argv ! 2))\<rparr>)"
proof -
  let ?fd = "open_ret k (argv ! 1)"
  let ?w1 = "\<lparr>trace = [Open (argv ! 1) ?fd], ninj = 0\<rparr>"
  have "send_text k ?fd (argv ! 2) 0 ?w1 =
     (None, \<lparr>trace = trace ?w1 @ byte_events [] k ?fd (argv ! 2) 0 (length (argv ! 2)),
             ninj = length (argv ! 2)\<rparr>)"
    using assms by (intro send_text_all_ok) simp_all
  then show ?thesis
    using assms by (auto simp add: send_keys_no_enter_main_def sys_defs crlf_events_def)
qed

subsection \<open>send-keys-pty.c\<close>

lemma pty_usage:
  "length argv \<noteq> 3 \<Longrightarrow> send_keys_pty_main k argv = (1, \<lparr>trace = [Usage], ninj = 0\<rparr>)"
  by (simp add: send_keys_pty_main_def sys_defs)

lemma pty_open_fail:
  "length argv = 3 \<Longrightarrow> open_ret k (argv ! 1) < 0 \<Longrightarrow>
   send_keys_pty_main k argv =
     (1, \<lparr>trace = [Open (argv ! 1) (open_ret k (argv ! 1)), Perror ''Failed to open terminal''],
          ninj = 0\<rparr>)"
  by (simp add: send_keys_pty_main_def sys_defs)

lemma pty_abort:
  assumes "length argv = 3" "\<not> open_ret k (argv ! 1) < 0" "m < length (argv ! 2)"
    "tiocsti_ret k m < 0" "\<forall>j<m. \<not> tiocsti_ret k j < 0"
  shows "send_keys_pty_main k argv =
     (1, \<lparr>trace = pty_prologue k (argv ! 1)
                   @ byte_events [Usleep 1000] k (open_ret k (argv ! 1)) (argv ! 2) 0 m
                   @ abort_events k (open_ret k (argv ! 1)) (argv ! 2) m,
          ninj = Suc m\<rparr>)"
proof -
  let ?fd = "open_ret k (argv ! 1)"
  let ?w3 = "\<lparr>trace = pty_prologue k (argv ! 1), ninj = 0\<rparr>"
  have "send_text_pty k ?fd (argv ! 2) 0 ?w3 =
     (Some 1, \<lparr>trace = trace ?w3 @ byte_events [Usleep 1000] k ?fd (argv ! 2) 0 m
                  @ abort_events k ?fd (argv ! 2) m, ninj = Suc m\<rparr>)"
    unfolding abort_events_def using assms by (intro send_text_pty_fail) simp_all
  then show ?thesis
    using assms
    by (cases "tcgetattr_ret k < 0") (simp_all add: send_keys_pty_main_def sys_defs pty_prologue_def)
qed

lemma pty_ok:
  assumes "length argv = 3" "\<not> open_ret k (argv ! 1) < 0"
    "\<forall>j<length (argv ! 2). \<not> tiocsti_ret k j < 0"
  shows "send_keys_pty_main k argv =
     (0, \<lparr>trace = pty_prologue k (argv ! 1)
                   @ byte_events [Usleep 1000] k (open_ret k (argv ! 1)) (argv ! 2) 0 (length (argv ! 2))
                   @ pty_eol_events k (open_ret k (argv ! 1)) (length (argv ! 2))
                   @ [Close (open_ret k (argv ! 1))],
          ninj = (if tios_lflag k AND ICANON \<noteq> 0
                  then Suc (Suc (length (argv ! 2))) else Suc (length (argv ! 2)))\<rparr>)"
proof -
  let ?fd = "open_ret k (argv ! 1)"
  let ?w3 = "\<lparr>trace = pty_prologue k (argv ! 1), ninj = 0\<rparr>"
  have "send_text_pty k ?fd (argv ! 2) 0 ?w3 =
     (None, \<lparr>trace = trace ?w3 @ byte_events [Usleep 1000] k ?fd (argv ! 2) 0 (length (argv ! 2)),
             ninj = length (argv ! 2)\<rparr>)"
    using assms by (intro send_text_pty_all_ok) simp_all
  then show ?thesis
    using assms
    by (cases "tcgetattr_ret k < 0")
      (simp_all add: send_keys_pty_main_def sys_defs pty_prologue_def pty_eol_events_def tios_lflag_def)
qed

section \<open>Observations of the closed forms\<close>

lemma injected_report [simp]:
  "injected (report (Perror l) r) = []" "injected (report (Fprintf l) r) = []"
  by (simp_all add: report_def)

lemma accepted_report [simp]:
  "accepted (report (Perror l) r) = []" "accepted (report (Fprintf l) r) = []"
  by (simp_all add: report_def)

lemma count_report [simp]:
  "count_list (report (Perror l) r) (Close fd) = 0" "count_list (report (Fprintf l) r) (Close fd) = 0"
  by (simp_all add: report_def)

lemma usage_report [simp]:
  "Usage \<notin> set (report (Perror l) r)" "Usage \<notin> set (report (Fprintf l) r)"
  by (simp_all add: report_def)

lemma usage_byte_events: "Usage \<notin> set d \<Longrightarrow> Usage \<notin> set (byte_events d k fd s i n)"
  by (auto simp add: byte_events_def)

lemma injected_crlf: "injected (crlf_events k fd n) = [CR, LF]"
  by (simp add: crlf_events_def injected_append)

lemma accepted_crlf:
  "accepted (crlf_events k fd n) =
     (if tiocsti_ret k n < 0 then [] else [CR]) @ (if tiocsti_ret k (Suc n) < 0 then [] else [LF])"
  by (simp add: crlf_events_def accepted_append)

lemma count_crlf: "count_list (crlf_events k fd n) (Close fd') = 0"
  by (simp add: crlf_events_def)

lemma usage_crlf: "Usage \<notin> set (crlf_events k fd n)"
  by (simp add: crlf_events_def)

lemma injected_pty_eol:
  "injected (pty_eol_events k fd n) = CR # (if tios_lflag k AND ICANON \<noteq> 0 then [LF] else [])"
  by (simp add: pty_eol_events_def injected_append)

lemma accepted_pty_eol:
  "accepted (pty_eol_events k fd n) =
     (if tiocsti_ret k n < 0 then [] else [CR])
     @ (if tios_lflag k AND ICANON \<noteq> 0 \<and> \<not> tiocsti_ret k (Suc n) < 0 then [LF] else [])"
  by (simp add: pty_eol_events_def accepted_append)

lemma count_pty_eol: "count_list (pty_eol_events k fd n) (Close fd') = 0"
  by (simp add: pty_eol_events_def)

lemma obs_pty_prologue:
  "injected (pty_prologue k p) = []" "accepted (pty_prologue k p) = []"
  "count_list (pty_prologue k p) (Close fd) = 0"
  by (simp_all add: pty_prologue_def injected_append accepted_append)

lemma abort_shape:
  assumes tr: "tr = pre @ byte_events d k fd s 0 m @ abort_events k fd s m"
    and pre: "injected pre = []" "accepted pre = []" "count_list pre (Close fd) = 0"
    and d: "injected d = []" "accepted d = []" "count_list d (Close fd) = 0"
    and m: "m < length s" "tiocsti_ret k m < 0" "\<forall>j<m. \<not> tiocsti_ret k j < 0"
  shows "injected tr = take (Suc m) s" and "accepted tr = take m s"
    and "drop (length tr - 3) tr = abort_events k fd s m"
    and "last tr = Close fd" and "count_list tr (Close fd) = 1"
proof -
  have le: "m \<le> length s" using m(1) by simp
  show "injected tr = take (Suc m) s"
    using pre d m(1) le
    by (simp add: tr injected_append injected_byte_events abort_events_def take_Suc_conv_app_nth)
  show "accepted tr = take m s"
    using pre d m le
    by (simp add: tr accepted_append accepted_byte_events abort_events_def)
  show "drop (length tr - 3) tr = abort_events k fd s m"
    by (simp add: tr abort_events_def)
  show "last tr = Close fd"
    by (simp add: tr abort_events_def)
  show "count_list tr (Close fd) = 1"
    using pre d by (simp add: tr count_byte_events abort_events_def)
qed

lemma done_shape:
  assumes tr: "tr = pre @ byte_events d k fd s 0 (length s) @ eol @ [Close fd]"
    and pre: "injected pre = []" "accepted pre = []" "count_list pre (Close fd) = 0"
    and d: "injected d = []" "accepted d = []" "count_list d (Close fd) = 0"
    and ok: "\<forall>j<length s. \<not> tiocsti_ret k j < 0"
    and eol: "count_list eol (Close fd) = 0"
  shows "injected tr = s @ injected eol" and "accepted tr = s @ accepted eol"
    and "last tr = Close fd" and "count_list tr (Close fd) = 1"
proof -
  show "injected tr = s @ injected eol"
    using pre d by (simp add: tr injected_append injected_byte_events)
  show "accepted tr = s @ accepted eol"
    using pre d ok by (simp add: tr accepted_append accepted_byte_events)
  show "last tr = Close fd"
    by (simp add: tr)
  show "count_list tr (Close fd) = 1"
    using pre d eol by (simp add: tr count_byte_events)
qed

section \<open>Case analysis of a run\<close>

lemma run_cases [case_names bad_args open_fail abort ok]:
  assumes "\<not> good \<Longrightarrow> P"
    and "good \<Longrightarrow> open_ret k p < 0 \<Longrightarrow> P"
    and "\<And>m. good \<Longrightarrow> \<not> open_ret k p < 0 \<Longrightarrow> m < length s \<Longrightarrow> tiocsti_ret k m < 0 \<Longrightarrow>
           \<forall>j<m. \<not> tiocsti_ret k j < 0 \<Longrightarrow> P"
    and "good \<Longrightarrow> \<not> open_ret k p < 0 \<Longrightarrow> \<forall>j<length s. \<not> tiocsti_ret k j < 0 \<Longrightarrow> P"
  shows P
  using assms first_failure [of "length s" "tiocsti_ret k"] by blast

lemma send_keys_aborted:
  assumes "length argv = 3" "\<not> open_ret k (argv ! 1) < 0" "m < length (argv ! 2)"
    "tiocsti_ret k m < 0" "\<forall>j<m. \<not> tiocsti_ret k j < 0"
  shows "aborted_at k (open_ret k (argv ! 1)) (argv ! 2) m (send_keys_main k argv)"
proof -
  have tr: "events (send_keys_main k argv) =
      [Open (argv ! 1) (open_ret k (argv ! 1))]
      @ byte_events [] k (open_ret k (argv ! 1)) (argv ! 2) 0 m
      @ abort_events k (open_ret k (argv ! 1)) (argv ! 2) m"
    and st: "status (send_keys_main k argv) = 1"
    by (simp_all add: send_keys_abort [OF assms])
  show ?thesis
    unfolding aborted_at_def closed_once_def
    using st abort_shape [OF tr _ _ _ _ _ _ assms(3,4,5)] by simp
qed

lemma raw_aborted:
  assumes "length argv = 3" "\<not> open_ret k (argv ! 1) < 0" "m < length (argv ! 2)"
    "tiocsti_ret k m < 0" "\<forall>j<m. \<not> tiocsti_ret k j < 0"
  shows "aborted_at k (open_ret k (argv ! 1)) (argv ! 2) m (send_keys_raw_main k argv)"
proof -
  have tr: "events (send_keys_raw_main k argv) =
      [Open (argv ! 1) (open_ret k (argv ! 1)), Tcgetattr (open_ret k (argv ! 1)) (tcgetattr_ret k)]
      @ byte_events [] k (open_ret k (argv ! 1)) (argv ! 2) 0 m
      @ abort_events k (open_ret k (argv ! 1)) (argv ! 2) m"
    and st: "status (send_keys_raw_main k argv) = 1"
    by (simp_all add: raw_abort [OF assms])
  show ?thesis
    unfolding aborted_at_def closed_once_def
    using st abort_shape [OF tr _ _ _ _ _ _ assms(3,4,5)] by simp
qed

lemma no_enter_aborted:
  assumes "length argv = 3 \<or> length argv = 4" "\<not> open_ret k (argv ! 1) < 0"
    "m < length (argv ! 2)" "tiocsti_ret k m < 0" "\<forall>j<m. \<not> tiocsti_ret k j < 0"
  shows "aborted_at k (open_ret k (argv ! 1)) (argv ! 2) m (send_keys_no_enter_main k argv)"
proof -
  have tr: "events (send_keys_no_enter_main k argv) =
      [Open (argv ! 1) (open_ret k (argv ! 1))]
      @ byte_events [] k (open_ret k (argv ! 1)) (argv ! 2) 0 m
      @ abort_events k (open_ret k (argv ! 1)) (argv ! 2) m"
    and st: "status (send_keys_no_enter_main k argv) = 1"
    by (simp_all add: no_enter_abort [OF assms])
  show ?thesis
    unfolding aborted_at_def closed_once_def
    using st abort_shape [OF tr _ _ _ _ _ _ assms(3,4,5)] by simp
qed

lemma pty_aborted:
  assumes "length argv = 3" "\<not> open_ret k (argv ! 1) < 0" "m < length (argv ! 2)"
    "tiocsti_ret k m < 0" "\<forall>j<m. \<not> tiocsti_ret k j < 0"
  shows "aborted_at k (open_ret k (argv ! 1)) (argv ! 2) m (send_keys_pty_main k argv)"
proof -
  have tr: "events (send_keys_pty_main k argv) =
      pty_prologue k (argv ! 1)
      @ byte_events [Usleep 1000] k (open_ret k (argv ! 1)) (argv ! 2) 0 m
      @ abort_events k (open_ret k (argv ! 1)) (argv ! 2) m"
    and st: "status (send_keys_pty_main k argv) = 1"
    by (simp_all add: pty_abort [OF assms])
  show ?thesis
    unfolding aborted_at_def closed_once_def
    using st abort_shape [OF tr _ _ _ _ _ _ assms(3,4,5)] by (simp add: obs_pty_prologue)
qed

lemma send_keys_done:
  assumes "length argv = 3" "\<not> open_ret k (argv ! 1) < 0"
    "\<forall>j<length (argv ! 2). \<not> tiocsti_ret k j < 0"
  shows "status (send_keys_main k argv) = 0"
    and "injected (events (send_keys_main k argv)) = argv ! 2 @ [CR, LF]"
    and "accepted (events (send_keys_main k argv)) =
           argv ! 2 @ accepted (crlf_events k (open_ret k (argv ! 1)) (length (argv ! 2)))"
    and "closed_once (open_ret k (argv ! 1)) (events (send_keys_main k argv))"
proof -
  have tr: "events (send_keys_main k argv) =
      [Open (argv ! 1) (open_ret k (argv ! 1))]
      @ byte_events [] k (open_ret k (argv ! 1)) (argv ! 2) 0 (length (argv ! 2))
      @ crlf_events k (open_ret k (argv ! 1)) (length (argv ! 2))
      @ [Close (open_ret k (argv ! 1))]"
    by (simp add: send_keys_ok [OF assms])
  note sh = done_shape [OF tr _ _ _ _ _ _ assms(3) count_crlf]
  show "status (send_keys_main k argv) = 0"
    by (simp add: send_keys_ok [OF assms])
  show "injected (events (send_keys_main k argv)) = argv ! 2 @ [CR, LF]"
    using sh(1) by (simp add: injected_crlf)
  show "accepted (events (send_keys_main k argv)) =
           argv ! 2 @ accepted (crlf_events k (open_ret k (argv ! 1)) (length (argv ! 2)))"
    using sh(2) by simp
  show "closed_once (open_ret k (argv ! 1)) (events (send_keys_main k argv))"
    unfolding closed_once_def using sh(3,4) by simp
qed

lemma raw_done:
  assumes "length argv = 3" "\<not> open_ret k (argv ! 1) < 0"
    "\<forall>j<length (argv ! 2). \<not> tiocsti_ret k j < 0"
  shows "status (send_keys_raw_main k argv) = (if tiocsti_ret k (length (argv ! 2)) < 0 then 1 else 0)"
    and "injected (events (send_keys_raw_main k argv)) = argv ! 2 @ [CR]"
    and "accepted (events (send_keys_raw_main k argv)) =
           argv ! 2 @ (if tiocsti_ret k (length (argv ! 2)) < 0 then [] else [CR])"
    and "closed_once (open_ret k (argv ! 1)) (events (send_keys_raw_main k argv))"
proof -
  let ?eol = "Tiocsti (open_ret k (argv ! 1)) CR (tiocsti_ret k (length (argv ! 2)))
                # report (Perror ''Failed to send Enter key'') (tiocsti_ret k (length (argv ! 2)))"
  have tr: "events (send_keys_raw_main k argv) =
      [Open (argv ! 1) (open_ret k (argv ! 1)), Tcgetattr (open_ret k (argv ! 1)) (tcgetattr_ret k)]
      @ byte_events [] k (open_ret k (argv ! 1)) (argv ! 2) 0 (length (argv ! 2))
      @ ?eol @ [Close (open_ret k (argv ! 1))]"
    by (simp add: raw_ok [OF assms])
  have c: "count_list ?eol (Close (open_ret k (argv ! 1))) = 0" by simp
  note sh = done_shape [OF tr _ _ _ _ _ _ assms(3) c]
  show "status (send_keys_raw_main k argv) = (if tiocsti_ret k (length (argv ! 2)) < 0 then 1 else 0)"
    by (simp add: raw_ok [OF assms])
  show "injected (events (send_keys_raw_main k argv)) = argv ! 2 @ [CR]"
    using sh(1) by simp
  show "accepted (events (send_keys_raw_main k argv)) =
           argv ! 2 @ (if tiocsti_ret k (length (argv ! 2)) < 0 then [] else [CR])"
    using sh(2) by simp
  show "closed_once (open_ret k (argv ! 1)) (events (send_keys_raw_main k argv))"
    unfolding closed_once_def using sh(3,4) by simp
qed

lemma no_enter_done:
  assumes "length argv = 3 \<or> length argv = 4" "\<not> open_ret k (argv ! 1) < 0"
    "\<forall>j<length (argv ! 2). \<not> tiocsti_ret k j < 0"
  shows "status (send_keys_no_enter_main k argv) = 0"
    and "injected (events (send_keys_no_enter_main k argv)) =
           argv ! 2 @ (if length argv = 4 \<and> argv ! 3 = ''enter'' then [CR, LF] else [])"
    and "accepted (events (send_keys_no_enter_main k argv)) =
           argv ! 2 @ (if length argv = 4 \<and> argv ! 3 = ''enter''
                       then accepted (crlf_events k (open_ret k (argv ! 1)) (length (argv ! 2)))
                       else [])"
    and "closed_once (open_ret k (argv ! 1)) (events (send_keys_no_enter_main k argv))"
    and "Usage \<notin> set (events (send_keys_no_enter_main k argv))"
proof -
  let ?eol = "if length argv = 4 \<and> argv ! 3 = ''enter''
              then crlf_events k (open_ret k (argv ! 1)) (length (argv ! 2)) else []"
  have tr: "events (send_keys_no_enter_main k argv) =
      [Open (argv ! 1) (open_ret k (argv ! 1))]
      @ byte_events [] k (open_ret k (argv ! 1)) (argv ! 2) 0 (length (argv ! 2))
      @ ?eol @ [Close (open_ret k (argv ! 1))]"
    by (simp add: no_enter_ok [OF assms])
  have c: "count_list ?eol (Close (open_ret k (argv ! 1))) = 0" by (simp add: count_crlf)
  note sh = done_shape [OF tr _ _ _ _ _ _ assms(3) c]
  show "status (send_keys_no_enter_main k argv) = 0"
    by (simp add: no_enter_ok [OF assms])
  show "injected (events (send_keys_no_enter_main k argv)) =
           argv ! 2 @ (if length argv = 4 \<and> argv ! 3 = ''enter'' then [CR, LF] else [])"
    using sh(1) by (simp add: injected_crlf)
  show "accepted (events (send_keys_no_enter_main k argv)) =
           argv ! 2 @ (if length argv = 4 \<and> argv ! 3 = ''enter''
                       then accepted (crlf_events k (open_ret k (argv ! 1)) (length (argv ! 2)))
                       else [])"
    using sh(2) by simp
  show "closed_once (open_ret k (argv ! 1)) (events (send_keys_no_enter_main k argv))"
    unfolding closed_once_def using sh(3,4) by simp
  show "Usage \<notin> set (events (send_keys_no_enter_main k argv))"
    by (simp add: tr usage_byte_events usage_crlf)
qed

lemma pty_done:
  assumes "length argv = 3" "\<not> open_ret k (argv ! 1) < 0"
    "\<forall>j<length (argv ! 2). \<not> tiocsti_ret k j < 0"
  shows "status (send_keys_pty_main k argv) = 0"
    and "injected (events (send_keys_pty_main k argv)) =
           argv ! 2 @ CR # (if tios_lflag k AND ICANON \<noteq> 0 then [LF] else [])"
    and "accepted (events (send_keys_pty_main k argv)) =
           argv ! 2 @ accepted (pty_eol_events k (open_ret k (argv ! 1)) (length (argv ! 2)))"
    and "closed_once (open_ret k (argv ! 1)) (events (send_keys_pty_main k argv))"
proof -
  have tr: "events (send_keys_pty_main k argv) =
      pty_prologue k (argv ! 1)
      @ byte_events [Usleep 1000] k (open_ret k (argv ! 1)) (argv ! 2) 0 (length (argv ! 2))
      @ pty_eol_events k (open_ret k (argv ! 1)) (length (argv ! 2))
      @ [Close (open_ret k (argv ! 1))]"
    by (simp add: pty_ok [OF assms])
  note sh = done_shape [OF tr obs_pty_prologue _ _ _ assms(3) count_pty_eol]
  show "status (send_keys_pty_main k argv) = 0"
    by (simp add: pty_ok [OF assms])
  show "injected (events (send_keys_pty_main k argv)) =
           argv ! 2 @ CR # (if tios_lflag k AND ICANON \<noteq> 0 then [LF] else [])"
    using sh(1) by (simp add: injected_pty_eol)
  show "accepted (events (send_keys_pty_main k argv)) =
           argv ! 2 @ accepted (pty_eol_events k (open_ret k (argv ! 1)) (length (argv ! 2)))"
    using sh(2) by simp
  show "closed_once (open_ret k (argv ! 1)) (events (send_keys_pty_main k argv))"
    unfolding closed_once_def using sh(3,4) by simp
qed

section \<open>Exit status\<close>

lemma take_short: "m < length s \<Longrightarrow> take (length s) (take m s) \<noteq> s"
proof
  assume "m < length s" and "take (length s) (take m s) = s"
  then have "length (take (length s) (take m s)) = length s" by simp
  with \<open>m < length s\<close> show False by simp
qed

lemma aborted_not_accepted:
  "aborted_at k fd s m r \<Longrightarrow> m < length s \<Longrightarrow> \<not> payload_accepted s (events r)"
  by (simp add: aborted_at_def payload_accepted_def take_short)

lemma send_keys_status_iff:
  "status (send_keys_main k argv) = 0 \<longleftrightarrow>
     length argv = 3 \<and> \<not> open_ret k (argv ! 1) < 0 \<and>
     payload_accepted (argv ! 2) (events (send_keys_main k argv))"
proof (rule run_cases [where good = "length argv = 3" and k = k and p = "argv ! 1" and s = "argv ! 2"])
  assume "length argv \<noteq> 3"
  then show ?thesis by (simp add: send_keys_usage)
next
  assume "length argv = 3" "open_ret k (argv ! 1) < 0"
  then show ?thesis by (simp add: send_keys_open_fail)
next
  fix m
  assume h: "length argv = 3" "\<not> open_ret k (argv ! 1) < 0" "m < length (argv ! 2)"
    "tiocsti_ret k m < 0" "\<forall>j<m. \<not> tiocsti_ret k j < 0"
  from send_keys_aborted [OF h] show ?thesis
    using aborted_not_accepted h(3) by (auto simp add: aborted_at_def)
next
  assume h: "length argv = 3" "\<not> open_ret k (argv ! 1) < 0"
    "\<forall>j<length (argv ! 2). \<not> tiocsti_ret k j < 0"
  show ?thesis
    using h(1,2) send_keys_done(1,3) [OF h] by (simp add: payload_accepted_def)
qed

lemma no_enter_status_iff:
  "status (send_keys_no_enter_main k argv) = 0 \<longleftrightarrow>
     (length argv = 3 \<or> length argv = 4) \<and> \<not> open_ret k (argv ! 1) < 0 \<and>
     payload_accepted (argv ! 2) (events (send_keys_no_enter_main k argv))"
proof (rule run_cases [where good = "length argv = 3 \<or> length argv = 4" and k = k and p = "argv ! 1" and s = "argv ! 2"])
  assume "\<not> (length argv = 3 \<or> length argv = 4)"
  then have "length argv < 3 \<or> length argv > 4" by arith
  then show ?thesis using no_enter_usage [of argv k] by auto
next
  assume "length argv = 3 \<or> length argv = 4" "open_ret k (argv ! 1) < 0"
  then show ?thesis using no_enter_open_fail [of argv k] by auto
next
  fix m
  assume h: "length argv = 3 \<or> length argv = 4" "\<not> open_ret k (argv ! 1) < 0"
    "m < length (argv ! 2)" "tiocsti_ret k m < 0" "\<forall>j<m. \<not> tiocsti_ret k j < 0"
  from no_enter_aborted [OF h] show ?thesis
    using aborted_not_accepted h(3) by (auto simp add: aborted_at_def)
next
  assume h: "length argv = 3 \<or> length argv = 4" "\<not> open_ret k (argv ! 1) < 0"
    "\<forall>j<length (argv ! 2). \<not> tiocsti_ret k j < 0"
  show ?thesis
    using h(1,2) no_enter_done(1,3) [OF h] by (simp add: payload_accepted_def)
qed

lemma pty_status_iff:
  "status (send_keys_pty_main k argv) = 0 \<longleftrightarrow>
     length argv = 3 \<and> \<not> open_ret k (argv ! 1) < 0 \<and>
     payload_accepted (argv ! 2) (events (send_keys_pty_main k argv))"
proof (rule run_cases [where good = "length argv = 3" and k = k and p = "argv ! 1" and s = "argv ! 2"])
  assume "length argv \<noteq> 3"
  then show ?thesis by (simp add: pty_usage)
next
  assume "length argv = 3" "open_ret k (argv ! 1) < 0"
  then show ?thesis by (simp add: pty_open_fail)
next
  fix m
  assume h: "length argv = 3" "\<not> open_ret k (argv ! 1) < 0" "m < length (argv ! 2)"
    "tiocsti_ret k m < 0" "\<forall>j<m. \<not> tiocsti_ret k j < 0"
  from pty_aborted [OF h] show ?thesis
    using aborted_not_accepted h(3) by (auto simp add: aborted_at_def)
next
  assume h: "length argv = 3" "\<not> open_ret k (argv ! 1) < 0"
    "\<forall>j<length (argv ! 2). \<not> tiocsti_ret k j < 0"
  show ?thesis
    using h(1,2) pty_done(1,3) [OF h] by (simp add: payload_accepted_def)
qed

lemma raw_status_iff:
  "status (send_keys_raw_main k argv) = 0 \<longleftrightarrow>
     length argv = 3 \<and> \<not> open_ret k (argv ! 1) < 0 \<and>
     accepted (events (send_keys_raw_main k argv)) = argv ! 2 @ [CR]"
proof (rule run_cases [where good = "length argv = 3" and k = k and p = "argv ! 1" and s = "argv ! 2"])
  assume "length argv \<noteq> 3"
  then show ?thesis by (simp add: raw_usage)
next
  assume "length argv = 3" "open_ret k (argv ! 1) < 0"
  then show ?thesis by (simp add: raw_open_fail)
next
  fix m
  assume h: "length argv = 3" "\<not> open_ret k (argv ! 1) < 0" "m < length (argv ! 2)"
    "tiocsti_ret k m < 0" "\<forall>j<m. \<not> tiocsti_ret k j < 0"
  have "length (take m (argv ! 2)) \<noteq> length (argv ! 2 @ [CR])" using h(3) by simp
  then have "take m (argv ! 2) \<noteq> argv ! 2 @ [CR]" by metis
  with raw_aborted [OF h] show ?thesis
    by (simp add: aborted_at_def)
next
  assume h: "length argv = 3" "\<not> open_ret k (argv ! 1) < 0"
    "\<forall>j<length (argv ! 2). \<not> tiocsti_ret k j < 0"
  show ?thesis
    using h(1,2) raw_done(1,3) [OF h] by simp
qed

lemma send_keys_success:
  "status (send_keys_main k argv) = 0 \<Longrightarrow>
   length argv = 3 \<and> \<not> open_ret k (argv ! 1) < 0 \<and> (\<forall>j<length (argv ! 2). \<not> tiocsti_ret k j < 0)"
proof (rule run_cases [where good = "length argv = 3" and k = k and p = "argv ! 1" and s = "argv ! 2"])
  assume "status (send_keys_main k argv) = 0" "length argv \<noteq> 3"
  then show ?thesis by (simp add: send_keys_usage)
next
  assume "status (send_keys_main k argv) = 0" "length argv = 3" "open_ret k (argv ! 1) < 0"
  then show ?thesis by (simp add: send_keys_open_fail)
next
  fix m
  assume st: "status (send_keys_main k argv) = 0"
    and h: "length argv = 3" "\<not> open_ret k (argv ! 1) < 0" "m < length (argv ! 2)"
    "tiocsti_ret k m < 0" "\<forall>j<m. \<not> tiocsti_ret k j < 0"
  from send_keys_aborted [OF h] st show ?thesis by (simp add: aborted_at_def)
next
  assume "length argv = 3" "\<not> open_ret k (argv ! 1) < 0"
    "\<forall>j<length (argv ! 2). \<not> tiocsti_ret k j < 0"
  then show ?thesis by simp
qed

lemma raw_success:
  "status (send_keys_raw_main k argv) = 0 \<Longrightarrow>
   length argv = 3 \<and> \<not> open_ret k (argv ! 1) < 0 \<and> (\<forall>j<length (argv ! 2). \<not> tiocsti_ret k j < 0)"
proof (rule run_cases [where good = "length argv = 3" and k = k and p = "argv ! 1" and s = "argv ! 2"])
  assume "status (send_keys_raw_main k argv) = 0" "length argv \<noteq> 3"
  then show ?thesis by (simp add: raw_usage)
next
  assume "status (send_keys_raw_main k argv) = 0" "length argv = 3" "open_ret k (argv ! 1) < 0"
  then show ?thesis by (simp add: raw_open_fail)
next
  fix m
  assume st: "status (send_keys_raw_main k argv) = 0"
    and h: "length argv = 3" "\<not> open_ret k (argv ! 1) < 0" "m < length (argv ! 2)"
    "tiocsti_ret k m < 0" "\<forall>j<m. \<not> tiocsti_ret k j < 0"
  from raw_aborted [OF h] st show ?thesis by (simp add: aborted_at_def)
next
  assume "length argv = 3" "\<not> open_ret k (argv ! 1) < 0"
    "\<forall>j<length (argv ! 2). \<not> tiocsti_ret k j < 0"
  then show ?thesis by simp
qed

lemma no_enter_success:
  "status (send_keys_no_enter_main k argv) = 0 \<Longrightarrow>
   (length argv = 3 \<or> length argv = 4) \<and> \<not> open_ret k (argv ! 1) < 0 \<and>
   (\<forall>j<length (argv ! 2). \<not> tiocsti_ret k j < 0)"
proof (rule run_cases [where good = "length argv = 3 \<or> length argv = 4" and k = k
      and p = "argv ! 1" and s = "argv ! 2"])
  assume st: "status (send_keys_no_enter_main k argv) = 0" and "\<not> (length argv = 3 \<or> length argv = 4)"
  then have "length argv < 3 \<or> length argv > 4" by arith
  then show ?thesis using st no_enter_usage [of argv k] by auto
next
  assume "status (send_keys_no_enter_main k argv) = 0" "length argv = 3 \<or> length argv = 4"
    "open_ret k (argv ! 1) < 0"
  then show ?thesis using no_enter_open_fail [of argv k] by auto
next
  fix m
  assume st: "status (send_keys_no_enter_main k argv) = 0"
    and h: "length argv = 3 \<or> length argv = 4" "\<not> open_ret k (argv ! 1) < 0"
    "m < length (argv ! 2)" "tiocsti_ret k m < 0" "\<forall>j<m. \<not> tiocsti_ret k j < 0"
  from no_enter_aborted [OF h] st show ?thesis by (simp add: aborted_at_def)
next
  assume "length argv = 3 \<or> length argv = 4" "\<not> open_ret k (argv ! 1) < 0"
    "\<forall>j<length (argv ! 2). \<not> tiocsti_ret k j < 0"
  then show ?thesis by simp
qed

lemma pty_success:
  "status (send_keys_pty_main k argv) = 0 \<Longrightarrow>
   length argv = 3 \<and> \<not> open_ret k (argv ! 1) < 0 \<and> (\<forall>j<length (argv ! 2). \<not> tiocsti_ret k j < 0)"
proof (rule run_cases [where good = "length argv = 3" and k = k and p = "argv ! 1" and s = "argv ! 2"])
  assume "status (send_keys_pty_main k argv) = 0" "length argv \<noteq> 3"
  then show ?thesis by (simp add: pty_usage)
next
  assume "status (send_keys_pty_main k argv) = 0" "length argv = 3" "open_ret k (argv ! 1) < 0"
  then show ?thesis by (simp add: pty_open_fail)
next
  fix m
  assume st: "status (send_keys_pty_main k argv) = 0"
    and h: "length argv = 3" "\<not> open_ret k (argv ! 1) < 0" "m < length (argv ! 2)"
    "tiocsti_ret k m < 0" "\<forall>j<m. \<not> tiocsti_ret k j < 0"
  from pty_aborted [OF h] st show ?thesis by (simp add: aborted_at_def)
next
  assume "length argv = 3" "\<not> open_ret k (argv ! 1) < 0"
    "\<forall>j<length (argv ! 2). \<not> tiocsti_ret k j < 0"
  then show ?thesis by simp
qed

section \<open>Release of the handle\<close>

lemma send_keys_closed:
  assumes "length argv = 3" "\<not> open_ret k (argv ! 1) < 0"
  shows "closed_once (open_ret k (argv ! 1)) (events (send_keys_main k argv))"
  using first_failure [of "length (argv ! 2)" "tiocsti_ret k"] assms
    send_keys_aborted [of argv k] send_keys_done(4) [of argv k]
  by (auto simp add: aborted_at_def)

lemma raw_closed:
  assumes "length argv = 3" "\<not> open_ret k (argv ! 1) < 0"
  shows "closed_once (open_ret k (argv ! 1)) (events (send_keys_raw_main k argv))"
  using first_failure [of "length (argv ! 2)" "tiocsti_ret k"] assms
    raw_aborted [of argv k] raw_done(4) [of argv k]
  by (auto simp add: aborted_at_def)

lemma no_enter_closed:
  assumes "length argv = 3 \<or> length argv = 4" "\<not> open_ret k (argv ! 1) < 0"
  shows "closed_once (open_ret k (argv ! 1)) (events (send_keys_no_enter_main k argv))"
  using first_failure [of "length (argv ! 2)" "tiocsti_ret k"] assms
    no_enter_aborted [of argv k] no_enter_done(4) [of argv k]
  by (auto simp add: aborted_at_def)

lemma pty_closed:
  assumes "length argv = 3" "\<not> open_ret k (argv ! 1) < 0"
  shows "closed_once (open_ret k (argv ! 1)) (events (send_keys_pty_main k argv))"
  using first_failure [of "length (argv ! 2)" "tiocsti_ret k"] assms
    pty_aborted [of argv k] pty_done(4) [of argv k]
  by (auto simp add: aborted_at_def)

section \<open>Framing suppressed, payload first, pacing\<close>



lemma no_enter_plain:
  assumes "length argv = 3 \<or> length argv = 4" "\<not> (length argv = 4 \<and> argv ! 3 = ''enter'')"
  shows "prefix (injected (events (send_keys_no_enter_main k argv))) (argv ! 2)"
proof (rule run_cases [where good = "length argv = 3 \<or> length argv = 4" and k = k
      and p = "argv ! 1" and s = "argv ! 2"])
  assume "\<not> (length argv = 3 \<or> length argv = 4)"
  with assms show ?thesis by simp
next
  assume "length argv = 3 \<or> length argv = 4" "open_ret k (argv ! 1) < 0"
  then show ?thesis by (simp add: no_enter_open_fail)
next
  fix m
  assume h: "length argv = 3 \<or> length argv = 4" "\<not> open_ret k (argv ! 1) < 0"
    "m < length (argv ! 2)" "tiocsti_ret k m < 0" "\<forall>j<m. \<not> tiocsti_ret k j < 0"
  from no_enter_aborted [OF h] show ?thesis
    by (simp add: aborted_at_def take_is_prefix)
next
  assume h: "length argv = 3 \<or> length argv = 4" "\<not> open_ret k (argv ! 1) < 0"
    "\<forall>j<length (argv ! 2). \<not> tiocsti_ret k j < 0"
  show ?thesis using no_enter_done(2) [OF h] assms(2) by auto
qed

lemma no_enter_plain_success:
  assumes "length argv = 3 \<or> length argv = 4" "\<not> (length argv = 4 \<and> argv ! 3 = ''enter'')"
    and "status (send_keys_no_enter_main k argv) = 0"
  shows "injected (events (send_keys_no_enter_main k argv)) = argv ! 2"
proof -
  from no_enter_success [OF assms(3)]
  have h: "length argv = 3 \<or> length argv = 4" "\<not> open_ret k (argv ! 1) < 0"
    "\<forall>j<length (argv ! 2). \<not> tiocsti_ret k j < 0" by simp_all
  show ?thesis using no_enter_done(2) [OF h] assms(2) by auto
qed

lemma send_keys_payload_first:
  assumes "status (send_keys_main k argv) = 0"
  shows "payload_first (argv ! 2) (events (send_keys_main k argv))"
proof -
  from send_keys_success [OF assms]
  have h: "length argv = 3" "\<not> open_ret k (argv ! 1) < 0"
    "\<forall>j<length (argv ! 2). \<not> tiocsti_ret k j < 0" by simp_all
  show ?thesis
    by (simp add: payload_first_def send_keys_done(2,3) [OF h])
qed

lemma raw_payload_first:
  assumes "status (send_keys_raw_main k argv) = 0"
  shows "payload_first (argv ! 2) (events (send_keys_raw_main k argv))"
proof -
  from raw_success [OF assms]
  have h: "length argv = 3" "\<not> open_ret k (argv ! 1) < 0"
    "\<forall>j<length (argv ! 2). \<not> tiocsti_ret k j < 0" by simp_all
  show ?thesis
    by (simp add: payload_first_def raw_done(2,3) [OF h])
qed

lemma no_enter_payload_first:
  assumes "status (send_keys_no_enter_main k argv) = 0"
  shows "payload_first (argv ! 2) (events (send_keys_no_enter_main k argv))"
proof -
  from no_enter_success [OF assms]
  have h: "length argv = 3 \<or> length argv = 4" "\<not> open_ret k (argv ! 1) < 0"
    "\<forall>j<length (argv ! 2). \<not> tiocsti_ret k j < 0" by simp_all
  show ?thesis
    by (simp add: payload_first_def no_enter_done(2,3) [OF h])
qed

lemma pty_payload_first:
  assumes "status (send_keys_pty_main k argv) = 0"
  shows "payload_first (argv ! 2) (events (send_keys_pty_main k argv))"
proof -
  from pty_success [OF assms]
  have h: "length argv = 3" "\<not> open_ret k (argv ! 1) < 0"
    "\<forall>j<length (argv ! 2). \<not> tiocsti_ret k j < 0" by simp_all
  show ?thesis
    by (simp add: payload_first_def pty_done(2,3) [OF h])
qed

lemma no_pause_outside_loop:
  "Usleep 1000 \<notin> set (pty_prologue k p)" "Usleep 1000 \<notin> set (pty_eol_events k fd n)"
  "Usleep 1000 \<notin> set (abort_events k fd s m)"
  by (simp_all add: pty_prologue_def pty_eol_events_def abort_events_def report_def)

text \<open>
  What is handed to \<^verbatim>\<open>TIOCSTI\<close> after a payload that was accepted in full, whatever
  the framing calls return. For send-keys-pty.c this is stated for the runs whose
  attribute query succeeded; after a failed query the structure was never written.
\<close>

lemma framing_after_payload:
  assumes "\<not> open_ret k (argv ! 1) < 0" and "\<forall>j<length (argv ! 2). \<not> tiocsti_ret k j < 0"
  shows "(length argv = 3 \<longrightarrow>
            injected (events (send_keys_main k argv)) = argv ! 2 @ [CR, LF]) \<and>
         (length argv = 4 \<and> argv ! 3 = ''enter'' \<longrightarrow>
            injected (events (send_keys_no_enter_main k argv)) = argv ! 2 @ [CR, LF]) \<and>
         (length argv = 3 \<and> \<not> tcgetattr_ret k < 0 \<longrightarrow>
            injected (events (send_keys_pty_main k argv)) =
              argv ! 2 @ (if term_lflag k AND ICANON \<noteq> 0 then [CR, LF] else [CR])) \<and>
         (length argv = 3 \<longrightarrow>
            injected (events (send_keys_raw_main k argv)) = argv ! 2 @ [CR])"
  using assms send_keys_done(2) [of argv k] no_enter_done(2) [of argv k] pty_done(2) [of argv k]
    raw_done(2) [of argv k]
  by (simp add: tios_lflag_def)

section \<open>The claims\<close>

text \<open>
  C1 (as amended). The exit status is 0 exactly when the argument count is right, the
  device was opened and every payload byte was accepted: this holds for send-keys.c,
  send-keys-no-enter.c and send-keys-pty.c, where a rejected CR or LF is only reported.
  In send-keys-raw.c the status is 0 exactly when, in addition, the CR was accepted.
\<close>

theorem exit_status_iff_delivered:
  "(status (send_keys_main k argv) = 0 \<longleftrightarrow>
      length argv = 3 \<and> \<not> open_ret k (argv ! 1) < 0 \<and>
      payload_accepted (argv ! 2) (events (send_keys_main k argv))) \<and>
   (status (send_keys_no_enter_main k argv) = 0 \<longleftrightarrow>
      (length argv = 3 \<or> length argv = 4) \<and> \<not> open_ret k (argv ! 1) < 0 \<and>
      payload_accepted (argv ! 2) (events (send_keys_no_enter_main k argv))) \<and>
   (status (send_keys_pty_main k argv) = 0 \<longleftrightarrow>
      length argv = 3 \<and> \<not> open_ret k (argv ! 1) < 0 \<and>
      payload_accepted (argv ! 2) (events (send_keys_pty_main k argv))) \<and>
   (status (send_keys_raw_main k argv) = 0 \<longleftrightarrow>
      length argv = 3 \<and> \<not> open_ret k (argv ! 1) < 0 \<and>
      accepted (events (send_keys_raw_main k argv)) = argv ! 2 @ [CR])"
  by (intro conjI send_keys_status_iff no_enter_status_iff pty_status_iff raw_status_iff)

theorem exit_status_iff_delivered_witness:
  "status (send_keys_main kernel_ok [''send-keys'', ''/dev/pts/1'', ''hi'']) = 0 \<and>
   status (send_keys_raw_main (kernel_reject_at 2) [''send-keys-raw'', ''/dev/pts/1'', ''hi'']) \<noteq> 0"
proof -
  let ?A = "[''send-keys'', ''/dev/pts/1'', ''hi'']"
  let ?B = "[''send-keys-raw'', ''/dev/pts/1'', ''hi'']"
  have a: "accepted (events (send_keys_main kernel_ok ?A)) = ''hi'' @ [CR, LF]"
    using send_keys_done(3) [of ?A kernel_ok] by (simp add: kernel_ok_def accepted_crlf)
  have b: "accepted (events (send_keys_raw_main (kernel_reject_at 2) ?B)) = ''hi''"
    using raw_done(3) [of ?B "kernel_reject_at 2"] by (simp add: kernel_reject_at_def kernel_ok_def)
  show ?thesis
    using exit_status_iff_delivered [of kernel_ok ?A] exit_status_iff_delivered [of "kernel_reject_at 2" ?B] a b
    by (simp add: payload_accepted_def kernel_ok_def kernel_reject_at_def)
qed

text \<open>
  C1 as stated fails for send-keys-raw.c: with payload \<open>hi\<close> both payload bytes are
  accepted, the CR (injection call number 2) is rejected, and the status is 1.
\<close>

theorem exit_status_raw_counterexample:
  "\<not> (status (send_keys_raw_main (kernel_reject_at 2) [''send-keys-raw'', ''/dev/pts/1'', ''hi'']) = 0
      \<longleftrightarrow> payload_accepted ''hi''
            (events (send_keys_raw_main (kernel_reject_at 2) [''send-keys-raw'', ''/dev/pts/1'', ''hi''])))"
proof -
  let ?B = "[''send-keys-raw'', ''/dev/pts/1'', ''hi'']"
  have "status (send_keys_raw_main (kernel_reject_at 2) ?B) = 1"
    using raw_done(1) [of ?B "kernel_reject_at 2"] by (simp add: kernel_reject_at_def kernel_ok_def)
  moreover have "accepted (events (send_keys_raw_main (kernel_reject_at 2) ?B)) = ''hi''"
    using raw_done(3) [of ?B "kernel_reject_at 2"] by (simp add: kernel_reject_at_def kernel_ok_def)
  ultimately show ?thesis by (simp add: payload_accepted_def)
qed

text \<open>
  C2. When the open succeeded and the injection of payload byte \<open>m\<close> is the first to be
  rejected, each of the four programs stops there: no later byte is handed to the
  kernel, the bytes before \<open>m\<close> stay accepted, \<^verbatim>\<open>Failed to send character\<close> is
  written, the handle is closed and the status is 1.
\<close>

theorem payload_failure_aborts:
  assumes "\<not> open_ret k (argv ! 1) < 0" and "m < length (argv ! 2)"
    and "tiocsti_ret k m < 0" and "\<forall>j<m. \<not> tiocsti_ret k j < 0"
  shows "(length argv = 3 \<longrightarrow>
            aborted_at k (open_ret k (argv ! 1)) (argv ! 2) m (send_keys_main k argv) \<and>
            aborted_at k (open_ret k (argv ! 1)) (argv ! 2) m (send_keys_raw_main k argv) \<and>
            aborted_at k (open_ret k (argv ! 1)) (argv ! 2) m (send_keys_pty_main k argv)) \<and>
         (length argv = 3 \<or> length argv = 4 \<longrightarrow>
            aborted_at k (open_ret k (argv ! 1)) (argv ! 2) m (send_keys_no_enter_main k argv))"
  using assms send_keys_aborted [of argv k m] raw_aborted [of argv k m] pty_aborted [of argv k m]
    no_enter_aborted [of argv k m]
  by blast

theorem payload_failure_aborts_witness:
  "aborted_at (kernel_reject_at 1) 3 ''hi'' 1
     (send_keys_main (kernel_reject_at 1) [''send-keys'', ''/dev/pts/1'', ''hi'']) \<and>
   aborted_at (kernel_reject_at 1) 3 ''hi'' 1
     (send_keys_pty_main (kernel_reject_at 1) [''send-keys'', ''/dev/pts/1'', ''hi'']) \<and>
   aborted_at (kernel_reject_at 1) 3 ''hi'' 1
     (send_keys_no_enter_main (kernel_reject_at 1) [''send-keys'', ''/dev/pts/1'', ''hi''])"
  using payload_failure_aborts [of "kernel_reject_at 1" "[''send-keys'', ''/dev/pts/1'', ''hi'']" 1]
  by (simp add: kernel_reject_at_def kernel_ok_def)




text \<open>
  C4 fails on the code. When \<^verbatim>\<open>tcgetattr\<close> fails, send-keys-pty.c tests the
  \<^verbatim>\<open>c_lflag\<close> of a structure that nothing has written: with the \<^verbatim>\<open>ICANON\<close> bit
  set in that indeterminate content the LF is injected after the CR, with the bit clear
  it is not. The status is 0 in both runs.
\<close>

theorem tcgetattr_failure_reads_indeterminate_flags:
  "injected (events (send_keys_pty_main (kernel_attr_fail ICANON)
      [''send-keys-pty'', ''/dev/pts/1'', ''hi''])) = ''hi'' @ [CR, LF] \<and>
   injected (events (send_keys_pty_main (kernel_attr_fail 0)
      [''send-keys-pty'', ''/dev/pts/1'', ''hi''])) = ''hi'' @ [CR] \<and>
   status (send_keys_pty_main (kernel_attr_fail ICANON)
      [''send-keys-pty'', ''/dev/pts/1'', ''hi'']) = 0"
  using pty_done(1,2) [of "[''send-keys-pty'', ''/dev/pts/1'', ''hi'']" "kernel_attr_fail ICANON"]
    pty_done(2) [of "[''send-keys-pty'', ''/dev/pts/1'', ''hi'']" "kernel_attr_fail 0"]
  by (simp add: kernel_attr_fail_def kernel_ok_def tios_lflag_def ICANON_def)

text \<open>
  C5. On a run with status 0 the first injection calls carry exactly the payload bytes,
  one per call and in order, each accepted; whatever is injected after them is nothing,
  CR, or CR then LF. This holds for each of the four programs.
\<close>

theorem payload_bytes_first_in_order:
  "(status (send_keys_main k argv) = 0 \<longrightarrow>
      payload_first (argv ! 2) (events (send_keys_main k argv))) \<and>
   (status (send_keys_raw_main k argv) = 0 \<longrightarrow>
      payload_first (argv ! 2) (events (send_keys_raw_main k argv))) \<and>
   (status (send_keys_no_enter_main k argv) = 0 \<longrightarrow>
      payload_first (argv ! 2) (events (send_keys_no_enter_main k argv))) \<and>
   (status (send_keys_pty_main k argv) = 0 \<longrightarrow>
      payload_first (argv ! 2) (events (send_keys_pty_main k argv)))"
  using send_keys_payload_first raw_payload_first no_enter_payload_first pty_payload_first
  by blast

theorem payload_bytes_first_in_order_witness:
  "payload_first ''hi'' (events (send_keys_main kernel_ok [''send-keys'', ''/dev/pts/1'', ''hi''])) \<and>
   payload_first ''hi'' (events (send_keys_pty_main kernel_ok [''send-keys'', ''/dev/pts/1'', ''hi'']))"
proof -
  let ?A = "[''send-keys'', ''/dev/pts/1'', ''hi'']"
  have "status (send_keys_main kernel_ok ?A) = 0"
    using send_keys_done(1) [of ?A kernel_ok] by (simp add: kernel_ok_def)
  moreover have "status (send_keys_pty_main kernel_ok ?A) = 0"
    using pty_done(1) [of ?A kernel_ok] by (simp add: kernel_ok_def)
  ultimately show ?thesis
    using payload_bytes_first_in_order [of kernel_ok ?A] by simp
qed

text \<open>
  C6 fails on the code. The terminal is not in canonical mode (its \<^verbatim>\<open>ICANON\<close> bit is
  clear) and send-keys-pty.c requests no unconditional canonical framing, yet the LF is
  injected after the CR: the attribute query failed, so there is no snapshot, and the
  test of \<^verbatim>\<open>tios.c_lflag & ICANON\<close> reads the indeterminate content of the
  structure, here with the bit set. This is the defect of C4.
\<close>

theorem failed_query_appends_line_feed_on_raw_terminal:
  "term_lflag ((kernel_attr_fail ICANON)\<lparr>term_lflag := 0\<rparr>) AND ICANON = 0 \<and>
   tcgetattr_ret ((kernel_attr_fail ICANON)\<lparr>term_lflag := 0\<rparr>) < 0 \<and>
   injected (events (send_keys_pty_main ((kernel_attr_fail ICANON)\<lparr>term_lflag := 0\<rparr>)
      [''send-keys-pty'', ''/dev/pts/1'', ''hi''])) = ''hi'' @ [CR, LF] \<and>
   accepted (events (send_keys_pty_main ((kernel_attr_fail ICANON)\<lparr>term_lflag := 0\<rparr>)
      [''send-keys-pty'', ''/dev/pts/1'', ''hi''])) = ''hi'' @ [CR, LF] \<and>
   status (send_keys_pty_main ((kernel_attr_fail ICANON)\<lparr>term_lflag := 0\<rparr>)
      [''send-keys-pty'', ''/dev/pts/1'', ''hi'']) = 0"
  using pty_done(1,2,3)
    [of "[''send-keys-pty'', ''/dev/pts/1'', ''hi'']" "(kernel_attr_fail ICANON)\<lparr>term_lflag := 0\<rparr>"]
  by (simp add: kernel_attr_fail_def kernel_ok_def tios_lflag_def ICANON_def accepted_pty_eol)

text \<open>
  C7 (as amended). In send-keys-pty.c the one millisecond pause follows every accepted
  payload byte, the last one included, and occurs nowhere else: the events before the
  loop, the events of the end-of-line step and the events of an abort contain no such
  pause. So no pause precedes the first payload byte, and none follows a rejected byte.
\<close>

theorem pause_follows_every_accepted_payload_byte:
  assumes "length argv = 3" and "\<not> open_ret k (argv ! 1) < 0"
  shows "((\<forall>j<length (argv ! 2). \<not> tiocsti_ret k j < 0) \<longrightarrow>
            events (send_keys_pty_main k argv) =
              pty_prologue k (argv ! 1)
              @ byte_events [Usleep 1000] k (open_ret k (argv ! 1)) (argv ! 2) 0 (length (argv ! 2))
              @ pty_eol_events k (open_ret k (argv ! 1)) (length (argv ! 2))
              @ [Close (open_ret k (argv ! 1))]) \<and>
         (m < length (argv ! 2) \<and> tiocsti_ret k m < 0 \<and> (\<forall>j<m. \<not> tiocsti_ret k j < 0) \<longrightarrow>
            events (send_keys_pty_main k argv) =
              pty_prologue k (argv ! 1)
              @ byte_events [Usleep 1000] k (open_ret k (argv ! 1)) (argv ! 2) 0 m
              @ abort_events k (open_ret k (argv ! 1)) (argv ! 2) m) \<and>
         Usleep 1000 \<notin> set (pty_prologue k (argv ! 1)) \<and>
         Usleep 1000 \<notin> set (pty_eol_events k (open_ret k (argv ! 1)) (length (argv ! 2))) \<and>
         Usleep 1000 \<notin> set (abort_events k (open_ret k (argv ! 1)) (argv ! 2) m)"
  using assms pty_ok [of argv k] pty_abort [of argv k m]
  by (simp add: no_pause_outside_loop)

theorem pause_follows_every_accepted_payload_byte_witness:
  "events (send_keys_pty_main kernel_ok [''send-keys-pty'', ''/dev/pts/1'', ''hi'']) =
     [Open ''/dev/pts/1'' 3, Tcgetattr 3 0,
      Tiocsti 3 CHR ''h'' 0, Usleep 1000, Tiocsti 3 CHR ''i'' 0, Usleep 1000,
      Tiocsti 3 CR 0, Usleep 10000, Tiocsti 3 LF 0, Close 3]"
  using pause_follows_every_accepted_payload_byte
    [of "[''send-keys-pty'', ''/dev/pts/1'', ''hi'']" kernel_ok 0]
  by (simp add: kernel_ok_def pty_prologue_def pty_eol_events_def byte_events_def report_def
      tios_lflag_def ICANON_def upt_rec)

text \<open>
  C7 as stated fails: with payload \<open>hi\<close> a pause of one millisecond follows the
  second and last payload byte, before the CR.
\<close>

theorem pause_after_last_byte_counterexample:
  "\<not> delay_only_between 2 0
       (events (send_keys_pty_main kernel_ok [''send-keys-pty'', ''/dev/pts/1'', ''hi'']))"
  using pty_ok [of "[''send-keys-pty'', ''/dev/pts/1'', ''hi'']" kernel_ok]
  by (simp add: kernel_ok_def pty_prologue_def pty_eol_events_def byte_events_def report_def
      tios_lflag_def ICANON_def upt_rec)

text \<open>
  C8. When the open succeeded, every run of each of the four programs closes the handle
  exactly once, as its last event: on the normal path, after a rejected payload byte,
  and in send-keys-raw.c after a rejected CR.
\<close>

theorem handle_closed_on_every_path:
  assumes "\<not> open_ret k (argv ! 1) < 0"
  shows "(length argv = 3 \<longrightarrow>
            closed_once (open_ret k (argv ! 1)) (events (send_keys_main k argv)) \<and>
            closed_once (open_ret k (argv ! 1)) (events (send_keys_raw_main k argv)) \<and>
            closed_once (open_ret k (argv ! 1)) (events (send_keys_pty_main k argv))) \<and>
         (length argv = 3 \<or> length argv = 4 \<longrightarrow>
            closed_once (open_ret k (argv ! 1)) (events (send_keys_no_enter_main k argv)))"
  using assms send_keys_closed [of argv k] raw_closed [of argv k] pty_closed [of argv k]
    no_enter_closed [of argv k]
  by blast

theorem handle_closed_on_every_path_witness:
  "closed_once 3 (events (send_keys_main (kernel_reject_at 1) [''send-keys'', ''/dev/pts/1'', ''hi''])) \<and>
   closed_once 3 (events (send_keys_raw_main (kernel_reject_at 2) [''send-keys'', ''/dev/pts/1'', ''hi'']))"
  using handle_closed_on_every_path [of "kernel_reject_at 1" "[''send-keys'', ''/dev/pts/1'', ''hi'']"]
    handle_closed_on_every_path [of "kernel_reject_at 2" "[''send-keys'', ''/dev/pts/1'', ''hi'']"]
  by (simp add: kernel_reject_at_def kernel_ok_def)

text \<open>
  C9. In send-keys-raw.c two runs with the same arguments whose environments agree on
  \<^verbatim>\<open>open\<close> and on every \<^verbatim>\<open>TIOCSTI\<close> call have the same exit status, the same
  injected bytes and the same accepted bytes, whatever \<^verbatim>\<open>tcgetattr\<close> returns or
  stores; and on status 0 the injected bytes are the payload followed by one CR.
\<close>

theorem raw_ignores_terminal_attributes:
  assumes "open_ret k1 = open_ret k2" and "tiocsti_ret k1 = tiocsti_ret k2"
  shows "status (send_keys_raw_main k1 argv) = status (send_keys_raw_main k2 argv) \<and>
         injected (events (send_keys_raw_main k1 argv)) = injected (events (send_keys_raw_main k2 argv)) \<and>
         accepted (events (send_keys_raw_main k1 argv)) = accepted (events (send_keys_raw_main k2 argv)) \<and>
         (status (send_keys_raw_main k1 argv) = 0 \<longrightarrow>
            injected (events (send_keys_raw_main k1 argv)) = argv ! 2 @ [CR])"
proof (rule run_cases [where good = "length argv = 3" and k = k1 and p = "argv ! 1" and s = "argv ! 2"])
  assume "length argv \<noteq> 3"
  then show ?thesis by (simp add: raw_usage)
next
  assume "length argv = 3" "open_ret k1 (argv ! 1) < 0"
  then show ?thesis using assms(1) by (simp add: raw_open_fail)
next
  fix m
  assume h: "length argv = 3" "\<not> open_ret k1 (argv ! 1) < 0" "m < length (argv ! 2)"
    "tiocsti_ret k1 m < 0" "\<forall>j<m. \<not> tiocsti_ret k1 j < 0"
  then have h': "length argv = 3" "\<not> open_ret k2 (argv ! 1) < 0" "m < length (argv ! 2)"
    "tiocsti_ret k2 m < 0" "\<forall>j<m. \<not> tiocsti_ret k2 j < 0"
    using assms by simp_all
  from raw_aborted [OF h] raw_aborted [OF h'] show ?thesis
    by (simp add: aborted_at_def)
next
  assume h: "length argv = 3" "\<not> open_ret k1 (argv ! 1) < 0"
    "\<forall>j<length (argv ! 2). \<not> tiocsti_ret k1 j < 0"
  then have h': "length argv = 3" "\<not> open_ret k2 (argv ! 1) < 0"
    "\<forall>j<length (argv ! 2). \<not> tiocsti_ret k2 j < 0"
    using assms by simp_all
  show ?thesis
    using raw_done(1,2,3) [OF h] raw_done(1,2,3) [OF h'] assms(2) by simp
qed

theorem raw_ignores_terminal_attributes_witness:
  "status (send_keys_raw_main kernel_ok [''send-keys-raw'', ''/dev/pts/1'', ''hi'']) =
   status (send_keys_raw_main (kernel_attr_fail ICANON) [''send-keys-raw'', ''/dev/pts/1'', ''hi'']) \<and>
   injected (events (send_keys_raw_main kernel_ok [''send-keys-raw'', ''/dev/pts/1'', ''hi''])) =
   injected (events (send_keys_raw_main (kernel_attr_fail ICANON)
      [''send-keys-raw'', ''/dev/pts/1'', ''hi'']))"
  using raw_ignores_terminal_attributes
    [of kernel_ok "kernel_attr_fail ICANON" "[''send-keys-raw'', ''/dev/pts/1'', ''hi'']"]
  by (simp add: kernel_attr_fail_def)

text \<open>
  C10. send-keys-no-enter.c with exactly two positional arguments injects payload bytes
  only: what it hands to the kernel is always a prefix of the payload, so no CR or LF
  is added; and when the open succeeded and every payload byte was accepted, the status
  is 0 and the injected bytes are exactly the payload.
\<close>

theorem no_token_no_framing:
  assumes "length argv = 3"
  shows "prefix (injected (events (send_keys_no_enter_main k argv))) (argv ! 2) \<and>
    (\<not> open_ret k (argv ! 1) < 0 \<and>
     payload_accepted (argv ! 2) (events (send_keys_no_enter_main k argv)) \<longrightarrow>
       status (send_keys_no_enter_main k argv) = 0 \<and>
       injected (events (send_keys_no_enter_main k argv)) = argv ! 2)"
proof (intro conjI impI)
  show "prefix (injected (events (send_keys_no_enter_main k argv))) (argv ! 2)"
    using assms by (simp add: no_enter_plain)
next
  assume "\<not> open_ret k (argv ! 1) < 0 \<and>
     payload_accepted (argv ! 2) (events (send_keys_no_enter_main k argv))"
  then show st: "status (send_keys_no_enter_main k argv) = 0"
    using assms by (simp add: no_enter_status_iff)
  show "injected (events (send_keys_no_enter_main k argv)) = argv ! 2"
    using assms st by (simp add: no_enter_plain_success)
qed

theorem no_token_no_framing_witness:
  "status (send_keys_no_enter_main kernel_ok [''send-keys-no-enter'', ''/dev/pts/1'', ''hi'']) = 0 \<and>
   injected (events (send_keys_no_enter_main kernel_ok
      [''send-keys-no-enter'', ''/dev/pts/1'', ''hi''])) = ''hi''"
proof -
  let ?A = "[''send-keys-no-enter'', ''/dev/pts/1'', ''hi'']"
  have "accepted (events (send_keys_no_enter_main kernel_ok ?A)) = ''hi''"
    using no_enter_done(3) [of ?A kernel_ok] by (simp add: kernel_ok_def)
  then have "payload_accepted ''hi'' (events (send_keys_no_enter_main kernel_ok ?A))"
    by (simp add: payload_accepted_def)
  then show ?thesis
    using no_token_no_framing [of ?A kernel_ok] by (simp add: kernel_ok_def)
qed

end
